theory Spec2Isabelle
  imports Main "HOL-Library.AList"
begin

section \<open>Milestone update of a timeline: data model\<close>

text \<open>
  The development follows \<^verbatim>\<open>src/routes/milestones/update.js\<close>: the request handler that
  edits one milestone of a timeline, renumbers the other milestones when the order moved
  to an occupied slot, cascades start and end dates to the milestones with a greater order
  (\<^verbatim>\<open>updateComingMilestones\<close>) and synchronises the end date of the timeline.

  A JavaScript \<^verbatim>\<open>Date\<close> is its number of milliseconds since the epoch (UTC); lodash's
  \<^verbatim>\<open>_.isEqual\<close> on two dates and the operator \<^verbatim>\<open><\<close> compare these numbers. A nullable
  column is an \<open>option\<close>.
\<close>

type_synonym date = int

definition day_ms :: int where
  "day_ms = 86400000"

text \<open>\<^verbatim>\<open>moment.utc(d).add(n, 'days').toDate()\<close>: whole days in UTC, no daylight saving.\<close>

definition add_days :: "date \<Rightarrow> int \<Rightarrow> date" where
  "add_days d n = d + n * day_ms"

text \<open>\<^verbatim>\<open>moment.utc().hours(0).minutes(0).seconds(0).milliseconds(0)\<close>, from the clock reading.\<close>

definition today :: "date \<Rightarrow> date" where
  "today now = now - now mod day_ms"

text \<open>
  Calendar notation for the dates of the scenarios: midnight UTC of a proleptic Gregorian
  day (what \<^verbatim>\<open>Date.UTC(y, m - 1, d)\<close> returns), by the usual count of days in 400-year eras
  with the year starting in March.
\<close>

definition utc_date :: "int \<Rightarrow> int \<Rightarrow> int \<Rightarrow> date" where
  "utc_date y m d =
     (let y' = (if m \<le> 2 then y - 1 else y);
          era = y' div 400;
          yoe = y' - era * 400;
          doy = (153 * (if 2 < m then m - 3 else m + 9) + 2) div 5 + d - 1;
          doe = yoe * 365 + yoe div 4 - yoe div 100 + doy
      in (era * 146097 + doe - 719468) * day_ms)"

text \<open>
  Modelled from the spec: the module \<^verbatim>\<open>constants\<close> that exports \<^verbatim>\<open>MILESTONE_STATUS\<close> is not
  among the sources. The spec names the statuses PLANNED, ACTIVE, COMPLETED and BLOCKED; the
  request carries a status as a string, so the two constants the handler uses are strings.
\<close>

definition MILESTONE_STATUS_ACTIVE :: string where
  "MILESTONE_STATUS_ACTIVE = ''active''"

definition MILESTONE_STATUS_COMPLETED :: string where
  "MILESTONE_STATUS_COMPLETED = ''completed''"

type_synonym json_object = "(string \<times> string) list"

text \<open>
  Modelled from the spec: \<^verbatim>\<open>util.mergeJsonObjects\<close> is not among the sources. The spec says
  the structured payload is merged key by key with the existing values and unspecified
  keys are preserved; an object is an association list here.
\<close>

fun mergeJsonObjects :: "json_object \<Rightarrow> json_object option \<Rightarrow> json_object" where
  "mergeJsonObjects targetObj None = targetObj"
| "mergeJsonObjects targetObj (Some sourceObj) =
     fold (\<lambda>(k, v) acc. AList.update k v acc) sourceObj targetObj"

text \<open>A row of the table \<^verbatim>\<open>Milestone\<close> (rows that are not soft-deleted).\<close>

record milestone =
  id_m :: int
  timelineId :: int
  name :: string
  description :: string
  duration :: int
  startDate :: date
  endDate :: date
  completionDate :: "date option"
  status :: string
  type_m :: string
  details :: json_object
  order :: int
  plannedText :: string
  activeText :: string
  completedText :: string
  blockedText :: string
  hidden :: bool
  updatedBy :: int

text \<open>The timeline that the middleware \<^verbatim>\<open>validateTimelineIdParam\<close> put on the request.\<close>

record timeline =
  id_t :: int
  t_endDate :: date
  t_updatedBy :: int

text \<open>
  A key of the request body is absent, or \<^verbatim>\<open>null\<close> (the schema allows it for
  \<^verbatim>\<open>completionDate\<close> only), or has a value.
\<close>

datatype 'a field = Absent | Null | Val 'a

text \<open>
  \<^verbatim>\<open>entityToUpdate\<close>: the object of the request body after validation, to which the handler
  adds keys. A key that is not set is \<open>None\<close> (\<open>Absent\<close>). The schema forbids
  \<^verbatim>\<open>startDate\<close> and \<^verbatim>\<open>endDate\<close> in the body and strips \<^verbatim>\<open>id\<close> and the audit keys.
\<close>

record entity =
  e_name :: "string option"
  e_description :: "string option"
  e_duration :: "int option"
  e_startDate :: "date option"
  e_endDate :: "date option"
  e_completionDate :: "date field"
  e_status :: "string option"
  e_type :: "string option"
  e_details :: "json_object option"
  e_order :: "int option"
  e_plannedText :: "string option"
  e_activeText :: "string option"
  e_completedText :: "string option"
  e_blockedText :: "string option"
  e_hidden :: "bool option"
  e_updatedBy :: "int option"
  e_timelineId :: "int option"

record request =
  params_timelineId :: int
  params_milestoneId :: int
  body_param :: entity
  authUser_userId :: int

text \<open>The stored state: the milestone table and the timeline of the request.\<close>

record store =
  Milestone :: "milestone list"
  req_timeline :: timeline

datatype apiErr = ApiErr (err_status: nat)

section \<open>Persistence operations\<close>

text \<open>\<^verbatim>\<open>models.Milestone.findOne({ where: { timelineId, id } })\<close>\<close>

definition findOne :: "int \<Rightarrow> int \<Rightarrow> milestone list \<Rightarrow> milestone option" where
  "findOne tid mid rows = find (\<lambda>m. timelineId m = tid \<and> id_m m = mid) rows"

text \<open>An instance's \<^verbatim>\<open>save()\<close> writes the row with the instance's primary key.\<close>

definition save :: "milestone \<Rightarrow> milestone list \<Rightarrow> milestone list" where
  "save m rows = map (\<lambda>r. if id_m r = id_m m then m else r) rows"

section \<open>Field merge\<close>

text \<open>The body with the keys that \<^verbatim>\<open>_.assign\<close> adds (lines 118 to 121).\<close>

definition assign_audit :: "request \<Rightarrow> entity" where
  "assign_audit req =
     (body_param req)\<lparr>e_updatedBy := Some (authUser_userId req),
                      e_timelineId := Some (params_timelineId req)\<rparr>"

text \<open>The check of line 139; a \<^verbatim>\<open>Date\<close> is truthy, \<^verbatim>\<open>null\<close> and \<^verbatim>\<open>undefined\<close> are not.\<close>

definition completionDate_before_start :: "entity \<Rightarrow> milestone \<Rightarrow> bool" where
  "completionDate_before_start e m =
     (case e_completionDate e of Val d \<Rightarrow> d < startDate m | _ \<Rightarrow> False)"

text \<open>The three flags of lines 146 to 149; the number 0 and the empty string are falsy.\<close>

definition durationChanged :: "entity \<Rightarrow> milestone \<Rightarrow> bool" where
  "durationChanged e m =
     (case e_duration e of Some d \<Rightarrow> d \<noteq> 0 \<and> d \<noteq> duration m | None \<Rightarrow> False)"

definition statusChanged :: "entity \<Rightarrow> milestone \<Rightarrow> bool" where
  "statusChanged e m =
     (case e_status e of Some s \<Rightarrow> s \<noteq> [] \<and> s \<noteq> status m | None \<Rightarrow> False)"

definition completionDateChanged :: "entity \<Rightarrow> milestone \<Rightarrow> bool" where
  "completionDateChanged e m =
     (case e_completionDate e of Val d \<Rightarrow> completionDate m \<noteq> Some d | _ \<Rightarrow> False)"

text \<open>Lines 153 to 175: the keys the handler sets on \<^verbatim>\<open>entityToUpdate\<close>, in the source's order.\<close>

definition merge_details :: "milestone \<Rightarrow> entity \<Rightarrow> entity" where
  "merge_details m e = e\<lparr>e_details := Some (mergeJsonObjects (details m) (e_details e))\<rparr>"

definition derive_endDate :: "milestone \<Rightarrow> entity \<Rightarrow> entity \<Rightarrow> entity" where
  "derive_endDate m e0 e =
     (if durationChanged e0 m
      then e\<lparr>e_endDate := Some (add_days (startDate m) (the (e_duration e0) - 1))\<rparr>
      else e)"

definition status_effects :: "date \<Rightarrow> milestone \<Rightarrow> entity \<Rightarrow> entity \<Rightarrow> entity" where
  "status_effects tdy m e0 e =
     (if statusChanged e0 m then
        (let e1 = (if e_status e = Some MILESTONE_STATUS_COMPLETED
                   then e\<lparr>e_completionDate :=
                            (case e_completionDate e of Val d \<Rightarrow> Val d | _ \<Rightarrow> Val tdy)\<rparr>
                   else e)
         in if e_status e1 = Some MILESTONE_STATUS_ACTIVE
            then e1\<lparr>e_startDate := Some tdy\<rparr>
            else e1)
      else e)"

definition force_completed :: "milestone \<Rightarrow> entity \<Rightarrow> entity \<Rightarrow> entity" where
  "force_completed m e0 e =
     (if \<not> statusChanged e0 m \<and> completionDateChanged e0 m
      then e\<lparr>e_status := Some MILESTONE_STATUS_COMPLETED\<rparr>
      else e)"

definition merge_fields :: "date \<Rightarrow> milestone \<Rightarrow> entity \<Rightarrow> entity" where
  "merge_fields tdy m e0 =
     force_completed m e0 (status_effects tdy m e0 (derive_endDate m e0 (merge_details m e0)))"

text \<open>
  \<^verbatim>\<open>milestone.update(entityToUpdate)\<close>: every key that is set is written to the instance;
  \<^verbatim>\<open>null\<close> clears the completion date.
\<close>

definition set_opt :: "'a option \<Rightarrow> 'a \<Rightarrow> 'a" where
  "set_opt v old = (case v of Some x \<Rightarrow> x | None \<Rightarrow> old)"

definition set_field :: "'a field \<Rightarrow> 'a option \<Rightarrow> 'a option" where
  "set_field v old = (case v of Absent \<Rightarrow> old | Null \<Rightarrow> None | Val x \<Rightarrow> Some x)"

definition instance_update :: "entity \<Rightarrow> milestone \<Rightarrow> milestone" where
  "instance_update e m =
     m\<lparr>timelineId := set_opt (e_timelineId e) (timelineId m),
       name := set_opt (e_name e) (name m),
       description := set_opt (e_description e) (description m),
       duration := set_opt (e_duration e) (duration m),
       startDate := set_opt (e_startDate e) (startDate m),
       endDate := set_opt (e_endDate e) (endDate m),
       completionDate := set_field (e_completionDate e) (completionDate m),
       status := set_opt (e_status e) (status m),
       type_m := set_opt (e_type e) (type_m m),
       details := set_opt (e_details e) (details m),
       order := set_opt (e_order e) (order m),
       plannedText := set_opt (e_plannedText e) (plannedText m),
       activeText := set_opt (e_activeText e) (activeText m),
       completedText := set_opt (e_completedText e) (completedText m),
       blockedText := set_opt (e_blockedText e) (blockedText m),
       hidden := set_opt (e_hidden e) (hidden m),
       updatedBy := set_opt (e_updatedBy e) (updatedBy m)\<rparr>"

section \<open>Order reindexing\<close>

text \<open>\<^verbatim>\<open>models.Milestone.count\<close> of lines 189 to 195.\<close>

definition count_at_order :: "milestone \<Rightarrow> milestone list \<Rightarrow> nat" where
  "count_at_order updated rows =
     length (filter (\<lambda>r. timelineId r = timelineId updated \<and> id_m r \<noteq> id_m updated
                          \<and> order r = order updated) rows)"

text \<open>
  \<^verbatim>\<open>models.Milestone.update({ order: literal }, { where })\<close>: one bulk statement that adds
  \<open>delta\<close> to the order of the other milestones of the timeline with an order between
  \<open>lo\<close> and \<open>hi\<close>, both included.
\<close>

definition shift_orders :: "milestone \<Rightarrow> int \<Rightarrow> int \<Rightarrow> int \<Rightarrow> milestone list \<Rightarrow> milestone list" where
  "shift_orders updated lo hi delta rows =
     map (\<lambda>r. if timelineId r = timelineId updated \<and> id_m r \<noteq> id_m updated
                  \<and> lo \<le> order r \<and> order r \<le> hi
               then r\<lparr>order := order r + delta\<rparr> else r) rows"

text \<open>Lines 184 to 222.\<close>

definition reindex :: "milestone \<Rightarrow> milestone \<Rightarrow> milestone list \<Rightarrow> milestone list" where
  "reindex original updated rows =
     (if order original = order updated then rows
      else if count_at_order updated rows = 0 then rows
      else if order original < order updated
      then shift_orders updated (order original + 1) (order updated) (- 1) rows
      else shift_orders updated (order updated) (order original - 1) 1 rows)"

section \<open>Date cascade\<close>

text \<open>\<^verbatim>\<open>completionDate ? completionDate : endDate\<close>, plus one day (lines 35 to 37, 63 to 65).\<close>

definition next_startDate :: "milestone \<Rightarrow> date" where
  "next_startDate m =
     add_days (case completionDate m of Some c \<Rightarrow> c | None \<Rightarrow> endDate m) 1"

text \<open>
  One iteration of the callback of \<^verbatim>\<open>_.map\<close> (lines 39 to 67): the milestone as it is saved
  and the new value of \<^verbatim>\<open>firstMilestoneFound\<close>.
\<close>

definition cascade_step :: "bool \<Rightarrow> int \<Rightarrow> date \<Rightarrow> bool \<Rightarrow> milestone \<Rightarrow> milestone \<times> bool" where
  "cascade_step cdChanged editor cursor found m =
     (let m1 = (if startDate m \<noteq> cursor
                then m\<lparr>startDate := cursor, updatedBy := editor\<rparr> else m);
          e = add_days cursor (duration m1 - 1);
          m2 = (if endDate m1 \<noteq> e then m1\<lparr>endDate := e, updatedBy := editor\<rparr> else m1)
      in if \<not> found \<and> cdChanged \<and> \<not> hidden m2
         then (m2\<lparr>status := MILESTONE_STATUS_ACTIVE\<rparr>, True)
         else (m2, found))"

fun cascade_loop :: "bool \<Rightarrow> int \<Rightarrow> date \<Rightarrow> bool \<Rightarrow> milestone list \<Rightarrow> milestone list" where
  "cascade_loop cdChanged editor cursor found [] = []"
| "cascade_loop cdChanged editor cursor found (m # ms) =
     (case cascade_step cdChanged editor cursor found m of
        (m', found') \<Rightarrow> m' # cascade_loop cdChanged editor (next_startDate m') found' ms)"

text \<open>\<^verbatim>\<open>findAll\<close> of lines 28 to 33 and \<^verbatim>\<open>_.sortBy\<close> (a stable sort) of line 34.\<close>

definition comingMilestones :: "milestone \<Rightarrow> milestone list \<Rightarrow> milestone list" where
  "comingMilestones updated rows =
     sort_key order
       (filter (\<lambda>r. timelineId r = timelineId updated \<and> order updated < order r) rows)"

text \<open>
  The milestones that the callback of \<^verbatim>\<open>_.map\<close> saves, in the order of the iteration: the
  flag \<^verbatim>\<open>completionDateChanged\<close> of line 27, the first \<^verbatim>\<open>startDate\<close> of lines 35 to 37.
\<close>

definition savedMilestones :: "milestone \<Rightarrow> milestone \<Rightarrow> milestone list \<Rightarrow> milestone list" where
  "savedMilestones originalMilestone updatedMilestone rows =
     cascade_loop (completionDate originalMilestone \<noteq> completionDate updatedMilestone)
       (updatedBy updatedMilestone) (next_startDate updatedMilestone) False
       (comingMilestones updatedMilestone rows)"

text \<open>
  \<^verbatim>\<open>updateComingMilestones\<close>: the table after the saves and the milestone the promise
  resolves to (\<^verbatim>\<open>updatedMilestones.pop() || updatedMilestone\<close>).
\<close>

definition updateComingMilestones ::
  "milestone \<Rightarrow> milestone \<Rightarrow> milestone list \<Rightarrow> milestone list \<times> milestone" where
  "updateComingMilestones originalMilestone updatedMilestone rows =
     (let saved = savedMilestones originalMilestone updatedMilestone rows
      in (fold save saved rows, if saved = [] then updatedMilestone else last saved))"

section \<open>Timeline synchronisation and the handler\<close>

text \<open>Lines 229 to 234.\<close>

definition sync_timeline :: "milestone \<Rightarrow> timeline \<Rightarrow> timeline" where
  "sync_timeline lastTimelineMilestone tline =
     (if endDate lastTimelineMilestone \<noteq> t_endDate tline
      then tline\<lparr>t_endDate := endDate lastTimelineMilestone,
                 t_updatedBy := updatedBy lastTimelineMilestone\<rparr>
      else tline)"

text \<open>The condition of line 226.\<close>

definition cascade_triggered :: "milestone \<Rightarrow> milestone \<Rightarrow> bool" where
  "cascade_triggered original updated =
     (completionDate original \<noteq> completionDate updated \<or> duration original \<noteq> duration updated)"

text \<open>The third step of the transaction (lines 224 to 238).\<close>

definition cascade_and_sync :: "milestone \<Rightarrow> milestone \<Rightarrow> store \<Rightarrow> store" where
  "cascade_and_sync original updated st =
     (if cascade_triggered original updated
      then (case updateComingMilestones original updated (Milestone st) of
              (rows, lastTimelineMilestone) \<Rightarrow>
                \<lparr>Milestone = rows,
                 req_timeline = sync_timeline lastTimelineMilestone (req_timeline st)\<rparr>)
      else st)"

text \<open>
  The handler (lines 113 to 257). The result is the error passed to \<^verbatim>\<open>next\<close>, or the pair
  \<^verbatim>\<open>{ original, updated }\<close> that is published and whose second component is the response;
  with it, the stored state after the request. Both rejections come before the first
  write.
\<close>

definition resolved :: "date \<Rightarrow> request \<Rightarrow> milestone \<Rightarrow> milestone" where
  "resolved now req m = instance_update (merge_fields (today now) m (assign_audit req)) m"

definition update_milestone ::
  "date \<Rightarrow> request \<Rightarrow> store \<Rightarrow> (apiErr + milestone \<times> milestone) \<times> store" where
  "update_milestone now req st =
     (case findOne (params_timelineId req) (params_milestoneId req) (Milestone st) of
        None \<Rightarrow> (Inl (ApiErr 404), st)
      | Some m \<Rightarrow>
          if completionDate_before_start (assign_audit req) m
          then (Inl (ApiErr 422), st)
          else
            (let original = m;
                 updated = resolved now req m;
                 st1 = st\<lparr>Milestone := save updated (Milestone st)\<rparr>;
                 st2 = st1\<lparr>Milestone := reindex original updated (Milestone st1)\<rparr>
             in (Inr (original, updated), cascade_and_sync original updated st2)))"

section \<open>Concrete requests and tables\<close>

text \<open>A body with no key, a request of user 7, and a planned, visible milestone of timeline 1.\<close>

definition empty_body :: entity where
  "empty_body =
     \<lparr>e_name = None, e_description = None, e_duration = None, e_startDate = None,
      e_endDate = None, e_completionDate = Absent, e_status = None, e_type = None,
      e_details = None, e_order = None, e_plannedText = None, e_activeText = None,
      e_completedText = None, e_blockedText = None, e_hidden = None, e_updatedBy = None,
      e_timelineId = None\<rparr>"

definition edit :: "int \<Rightarrow> int \<Rightarrow> entity \<Rightarrow> request" where
  "edit tid mid b =
     \<lparr>params_timelineId = tid, params_milestoneId = mid, body_param = b, authUser_userId = 7\<rparr>"

definition planned :: "int \<Rightarrow> int \<Rightarrow> int \<Rightarrow> date \<Rightarrow> date \<Rightarrow> milestone" where
  "planned i ord dur sd ed =
     \<lparr>id_m = i, timelineId = 1, name = ''m'', description = '''', duration = dur,
      startDate = sd, endDate = ed, completionDate = None, status = ''planned'', type_m = '''',
      details = [], order = ord, plannedText = '''', activeText = '''', completedText = '''',
      blockedText = '''', hidden = False, updatedBy = 0\<rparr>"

text \<open>
  Scenario A of the spec: orders 1, 2, 3 with durations 5, 3, 4, the first milestone starting
  on 2024-01-01. The scenario does not fix the other dates: they are parameters.
\<close>

definition scenario_A :: "date \<Rightarrow> date \<Rightarrow> date \<Rightarrow> date \<Rightarrow> date \<Rightarrow> date \<Rightarrow> store" where
  "scenario_A e1 s2 e2 s3 e3 te =
     \<lparr>Milestone = [planned 11 1 5 (utc_date 2024 1 1) e1, planned 12 2 3 s2 e2,
                   planned 13 3 4 s3 e3],
      req_timeline = \<lparr>id_t = 1, t_endDate = te, t_updatedBy = 0\<rparr>\<rparr>"

text \<open>
  Scenario E of the spec: the second milestone is hidden and the first one has just received a
  completion date.
\<close>

definition completed_E :: milestone where
  "completed_E =
     (planned 11 1 5 (utc_date 2024 1 1) (utc_date 2024 1 5))
       \<lparr>completionDate := Some (utc_date 2024 1 3), status := MILESTONE_STATUS_COMPLETED\<rparr>"

definition scenario_E :: "milestone list" where
  "scenario_E =
     [completed_E,
      (planned 12 2 3 (utc_date 2024 1 6) (utc_date 2024 1 8))\<lparr>hidden := True\<rparr>,
      planned 13 3 4 (utc_date 2024 1 9) (utc_date 2024 1 12)]"

definition store_E :: store where
  "store_E =
     \<lparr>Milestone = scenario_E,
      req_timeline = \<lparr>id_t = 1, t_endDate = utc_date 2024 1 12, t_updatedBy = 0\<rparr>\<rparr>"

text \<open>
  Scenario B of the spec: four milestones with the orders 1 to 4, laid end to end.
\<close>

definition scenario_B :: store where
  "scenario_B =
     \<lparr>Milestone = [planned 11 1 5 (utc_date 2024 1 1) (utc_date 2024 1 5),
                   planned 12 2 3 (utc_date 2024 1 6) (utc_date 2024 1 8),
                   planned 13 3 4 (utc_date 2024 1 9) (utc_date 2024 1 12),
                   planned 14 4 1 (utc_date 2024 1 13) (utc_date 2024 1 13)],
      req_timeline = \<lparr>id_t = 1, t_endDate = utc_date 2024 1 13, t_updatedBy = 0\<rparr>\<rparr>"

text \<open>A clock reading: noon UTC of 2024-02-01.\<close>

definition noon_2024_02_01 :: date where
  "noon_2024_02_01 = utc_date 2024 2 1 + 43200000"

section \<open>Auxiliary notions for the proofs\<close>

text \<open>The row that a sequence of saves leaves in the place of the row \<open>r\<close>.\<close>

definition lookup_saved :: "milestone list \<Rightarrow> milestone \<Rightarrow> milestone" where
  "lookup_saved saved r =
     (case find (\<lambda>s. id_m s = id_m r) (rev saved) of Some s \<Rightarrow> s | None \<Rightarrow> r)"

text \<open>The cascade writes four columns of a row and no other.\<close>

definition cascade_frame :: "milestone \<Rightarrow> milestone \<Rightarrow> bool" where
  "cascade_frame x s =
     (s = x\<lparr>startDate := startDate s, endDate := endDate s, status := status s,
            updatedBy := updatedBy s\<rparr>)"

text \<open>
  The renumbering in the words of the spec: a slot is occupied when another milestone of the
  timeline has that order; a move from \<open>M\<close> to an occupied \<open>K\<close> takes one from the orders
  \<open>M + 1\<close> to \<open>K\<close> when \<open>K\<close> is greater, adds one to the orders \<open>K\<close> to \<open>M - 1\<close>
  when \<open>K\<close> is smaller, and leaves every other order as it is.
\<close>

definition slot_occupied :: "int \<Rightarrow> int \<Rightarrow> int \<Rightarrow> milestone list \<Rightarrow> bool" where
  "slot_occupied tid mid K rows =
     (\<exists>r \<in> set rows. timelineId r = tid \<and> id_m r \<noteq> mid \<and> order r = K)"

definition order_after_move :: "int \<Rightarrow> int \<Rightarrow> bool \<Rightarrow> int \<Rightarrow> int" where
  "order_after_move M K occupied ord =
     (if occupied \<and> M < K \<and> M + 1 \<le> ord \<and> ord \<le> K then ord - 1
      else if occupied \<and> K < M \<and> K \<le> ord \<and> ord \<le> M - 1 then ord + 1
      else ord)"

text \<open>
  The order of a row after the update of milestone \<open>mid\<close> of timeline \<open>tid\<close> from order
  \<open>M\<close> to order \<open>K\<close>: the edited row has \<open>K\<close>, the other rows of the timeline are
  renumbered, the rows of other timelines keep their order.
\<close>

definition order_after_update ::
  "int \<Rightarrow> int \<Rightarrow> int \<Rightarrow> int \<Rightarrow> milestone list \<Rightarrow> milestone \<Rightarrow> int" where
  "order_after_update tid mid M K rows r =
     (if id_m r = mid then K
      else if timelineId r = tid
      then order_after_move M K (slot_occupied tid mid K rows) (order r)
      else order r)"

text \<open>The renumbering writes the column \<open>order\<close> of a row and no other.\<close>

definition order_frame :: "milestone \<Rightarrow> milestone \<Rightarrow> bool" where
  "order_frame r r' = (r' = r\<lparr>order := order r'\<rparr>)"

section \<open>Basic facts\<close>

lemmas scenario_defs = empty_body_def edit_def planned_def

lemma utc_dates_2024:
  "utc_date 2024 1 1 = 19723 * day_ms" "utc_date 2024 1 5 = 19727 * day_ms"
  "utc_date 2024 1 10 = 19732 * day_ms" "utc_date 2024 1 11 = 19733 * day_ms"
  "utc_date 2024 1 13 = 19735 * day_ms" "utc_date 2024 1 14 = 19736 * day_ms"
  "utc_date 2024 1 17 = 19739 * day_ms" "utc_date 2024 2 1 = 19754 * day_ms"
  by (simp_all add: utc_date_def Let_def)

lemma today_midnight:
  "today now mod day_ms = 0 \<and> today now \<le> now \<and> now < today now + day_ms"
proof -
  have "0 \<le> now mod day_ms" "now mod day_ms < day_ms"
    by (simp_all add: day_ms_def)
  then show ?thesis
    by (simp add: today_def)
qed

lemma statuses_distinct:
  "MILESTONE_STATUS_ACTIVE \<noteq> MILESTONE_STATUS_COMPLETED"
  "MILESTONE_STATUS_ACTIVE \<noteq> []" "MILESTONE_STATUS_COMPLETED \<noteq> []"
  by (simp_all add: MILESTONE_STATUS_ACTIVE_def MILESTONE_STATUS_COMPLETED_def)

lemma flags_assign_audit:
  "statusChanged (assign_audit req) m = statusChanged (body_param req) m"
  "durationChanged (assign_audit req) m = durationChanged (body_param req) m"
  "completionDateChanged (assign_audit req) m = completionDateChanged (body_param req) m"
  by (simp_all add: statusChanged_def durationChanged_def completionDateChanged_def
      assign_audit_def)

lemma assign_audit_fields:
  "e_status (assign_audit req) = e_status (body_param req)"
  "e_completionDate (assign_audit req) = e_completionDate (body_param req)"
  "e_duration (assign_audit req) = e_duration (body_param req)"
  "e_order (assign_audit req) = e_order (body_param req)"
  "e_startDate (assign_audit req) = e_startDate (body_param req)"
  "e_endDate (assign_audit req) = e_endDate (body_param req)"
  "e_hidden (assign_audit req) = e_hidden (body_param req)"
  "e_timelineId (assign_audit req) = Some (params_timelineId req)"
  "e_updatedBy (assign_audit req) = Some (authUser_userId req)"
  by (simp_all add: assign_audit_def)

lemma merge_fields_status:
  "e_status (merge_fields tdy m e) =
     (if \<not> statusChanged e m \<and> completionDateChanged e m
      then Some MILESTONE_STATUS_COMPLETED else e_status e)"
  by (simp add: merge_fields_def force_completed_def status_effects_def derive_endDate_def
      merge_details_def Let_def)

lemma merge_fields_completionDate:
  "e_completionDate (merge_fields tdy m e) =
     (if statusChanged e m \<and> e_status e = Some MILESTONE_STATUS_COMPLETED
      then (case e_completionDate e of Val d \<Rightarrow> Val d | _ \<Rightarrow> Val tdy)
      else e_completionDate e)"
  by (simp add: merge_fields_def force_completed_def status_effects_def derive_endDate_def
      merge_details_def Let_def)

lemma merge_fields_startDate:
  "e_startDate (merge_fields tdy m e) =
     (if statusChanged e m \<and> e_status e = Some MILESTONE_STATUS_ACTIVE
      then Some tdy else e_startDate e)"
  by (simp add: merge_fields_def force_completed_def status_effects_def derive_endDate_def
      merge_details_def Let_def)

lemma merge_fields_endDate:
  "e_endDate (merge_fields tdy m e) =
     (if durationChanged e m then Some (add_days (startDate m) (the (e_duration e) - 1))
      else e_endDate e)"
  by (simp add: merge_fields_def force_completed_def status_effects_def derive_endDate_def
      merge_details_def Let_def)

lemma merge_fields_kept:
  "e_duration (merge_fields tdy m e) = e_duration e"
  "e_order (merge_fields tdy m e) = e_order e"
  "e_hidden (merge_fields tdy m e) = e_hidden e"
  "e_timelineId (merge_fields tdy m e) = e_timelineId e"
  "e_updatedBy (merge_fields tdy m e) = e_updatedBy e"
  by (simp_all add: merge_fields_def force_completed_def status_effects_def derive_endDate_def
      merge_details_def Let_def)

lemma resolved_fields:
  "id_m (resolved now req m) = id_m m"
  "timelineId (resolved now req m) = params_timelineId req"
  "updatedBy (resolved now req m) = authUser_userId req"
  "order (resolved now req m) = set_opt (e_order (body_param req)) (order m)"
  "duration (resolved now req m) = set_opt (e_duration (body_param req)) (duration m)"
  "hidden (resolved now req m) = set_opt (e_hidden (body_param req)) (hidden m)"
  "status (resolved now req m) =
     set_opt (e_status (merge_fields (today now) m (assign_audit req))) (status m)"
  "completionDate (resolved now req m) =
     set_field (e_completionDate (merge_fields (today now) m (assign_audit req)))
       (completionDate m)"
  "startDate (resolved now req m) =
     set_opt (e_startDate (merge_fields (today now) m (assign_audit req))) (startDate m)"
  "endDate (resolved now req m) =
     set_opt (e_endDate (merge_fields (today now) m (assign_audit req))) (endDate m)"
  by (simp_all add: resolved_def instance_update_def merge_fields_kept set_opt_def
      assign_audit_fields)

text \<open>Line 157: a changed duration derives the end date from the stored start date.\<close>

lemma duration_change_endDate:
  "durationChanged (body_param req) m \<Longrightarrow>
     endDate (resolved now req m) = add_days (startDate m) (duration (resolved now req m) - 1)"
  by (auto simp: resolved_fields merge_fields_endDate flags_assign_audit assign_audit_fields
      set_opt_def durationChanged_def split: option.splits)

lemma findOne_SomeD:
  "findOne tid mid rows = Some m \<Longrightarrow> m \<in> set rows \<and> timelineId m = tid \<and> id_m m = mid"
  by (auto simp: findOne_def find_Some_iff)

section \<open>The cascade and the saves\<close>

subsection \<open>Saving rows\<close>

lemma lookup_saved_Nil: "lookup_saved [] r = r"
  by (simp add: lookup_saved_def)

lemma lookup_saved_snoc:
  "lookup_saved (ss @ [s]) r = (if id_m r = id_m s then s else lookup_saved ss r)"
  by (auto simp: lookup_saved_def)

lemma id_lookup_saved: "id_m (lookup_saved saved r) = id_m r"
  by (induction saved rule: rev_induct) (simp_all add: lookup_saved_Nil lookup_saved_snoc)

lemma fold_save_map: "fold save saved rows = map (lookup_saved saved) rows"
proof (induction saved rule: rev_induct)
  case Nil
  then show ?case by (simp add: lookup_saved_Nil)
next
  case (snoc s ss)
  have "fold save (ss @ [s]) rows = save s (map (lookup_saved ss) rows)"
    by (simp add: snoc)
  also have "\<dots> = map (lookup_saved (ss @ [s])) rows"
    by (simp add: save_def lookup_saved_snoc id_lookup_saved)
  finally show ?case .
qed

lemma lookup_saved_cases:
  "(lookup_saved saved r = r \<and> id_m r \<notin> id_m ` set saved)
   \<or> (lookup_saved saved r \<in> set saved \<and> id_m (lookup_saved saved r) = id_m r)"
  by (induction saved rule: rev_induct) (auto simp: lookup_saved_snoc lookup_saved_Nil)

lemma lookup_saved_last:
  "saved \<noteq> [] \<Longrightarrow> id_m r = id_m (last saved) \<Longrightarrow> lookup_saved saved r = last saved"
  by (induction saved rule: rev_induct) (auto simp: lookup_saved_snoc)

lemma lookup_saved_distinct:
  "distinct (map id_m saved) \<Longrightarrow> s \<in> set saved \<Longrightarrow> id_m r = id_m s
     \<Longrightarrow> lookup_saved saved r = s"
proof (induction saved rule: rev_induct)
  case Nil
  then show ?case by simp
next
  case (snoc x xs)
  show ?case
  proof (cases "id_m r = id_m x")
    case True
    with snoc.prems have "s = x" by (auto simp: image_iff)
    with True show ?thesis by (simp add: lookup_saved_snoc)
  next
    case False
    with snoc show ?thesis by (auto simp: lookup_saved_snoc)
  qed
qed

lemma save_keys: "map id_m (save m rows) = map id_m rows"
  by (simp add: save_def)

subsection \<open>One step of the cascade\<close>

lemma cascade_step_frame: "cascade_frame m (fst (cascade_step c u d f m))"
  by (simp add: cascade_step_def cascade_frame_def Let_def)

lemma cascade_frame_fields:
  assumes "cascade_frame x s"
  shows "id_m s = id_m x" "timelineId s = timelineId x" "order s = order x"
    "duration s = duration x" "hidden s = hidden x" "completionDate s = completionDate x"
proof -
  from assms have s: "s = x\<lparr>startDate := startDate s, endDate := endDate s, status := status s,
      updatedBy := updatedBy s\<rparr>" by (simp add: cascade_frame_def)
  show "id_m s = id_m x" by (subst s) simp
  show "timelineId s = timelineId x" by (subst s) simp
  show "order s = order x" by (subst s) simp
  show "duration s = duration x" by (subst s) simp
  show "hidden s = hidden x" by (subst s) simp
  show "completionDate s = completionDate x" by (subst s) simp
qed

lemma cascade_step_dates:
  "startDate (fst (cascade_step c u d f m)) = d"
  "endDate (fst (cascade_step c u d f m)) = add_days d (duration m - 1)"
  by (simp_all add: cascade_step_def Let_def)

lemma cascade_step_status:
  "status (fst (cascade_step c u d f m)) =
     (if \<not> f \<and> c \<and> \<not> hidden m then MILESTONE_STATUS_ACTIVE else status m)"
  "snd (cascade_step c u d f m) = (f \<or> (c \<and> \<not> hidden m))"
  by (auto simp: cascade_step_def Let_def)

lemma cascade_loop_Cons:
  "cascade_loop c u d f (m # ms) =
     fst (cascade_step c u d f m)
       # cascade_loop c u (next_startDate (fst (cascade_step c u d f m)))
           (snd (cascade_step c u d f m)) ms"
  by (simp split: prod.splits)

subsection \<open>The loop of the cascade\<close>

lemma cascade_loop_frame: "list_all2 cascade_frame ms (cascade_loop c u d f ms)"
proof (induction ms arbitrary: d f)
  case Nil
  then show ?case by simp
next
  case (Cons m ms)
  then show ?case
    by (simp only: cascade_loop_Cons list_all2_Cons cascade_step_frame simp_thms)
qed

lemma cascade_loop_length: "length (cascade_loop c u d f ms) = length ms"
  using cascade_loop_frame [of ms c u d f] by (simp add: list_all2_lengthD)

lemma cascade_loop_map:
  "map id_m (cascade_loop c u d f ms) = map id_m ms"
  "map order (cascade_loop c u d f ms) = map order ms"
  "map timelineId (cascade_loop c u d f ms) = map timelineId ms"
  "map hidden (cascade_loop c u d f ms) = map hidden ms"
  using cascade_loop_frame [of ms c u d f]
  by (auto simp: list_all2_conv_all_nth cascade_frame_fields intro!: nth_equalityI)

lemma cascade_loop_endDate:
  "s \<in> set (cascade_loop c u d f ms) \<Longrightarrow> endDate s = add_days (startDate s) (duration s - 1)"
proof (induction ms arbitrary: d f)
  case Nil
  then show ?case by simp
next
  case (Cons m ms)
  from Cons.prems consider "s = fst (cascade_step c u d f m)"
    | "s \<in> set (cascade_loop c u (next_startDate (fst (cascade_step c u d f m)))
           (snd (cascade_step c u d f m)) ms)"
    by (auto simp only: cascade_loop_Cons set_simps)
  then show ?case
  proof cases
    case 1
    then show ?thesis
      using cascade_frame_fields(4) [OF cascade_step_frame [of m c u d f]]
      by (simp add: cascade_step_dates)
  next
    case 2
    then show ?thesis by (rule Cons.IH)
  qed
qed

lemma cascade_loop_hd:
  "ms \<noteq> [] \<Longrightarrow> startDate (hd (cascade_loop c u d f ms)) = d"
  by (cases ms) (simp_all only: cascade_loop_Cons list.sel cascade_step_dates, simp)

lemma cascade_loop_chain:
  "Suc i < length ms \<Longrightarrow>
     startDate (cascade_loop c u d f ms ! Suc i) = next_startDate (cascade_loop c u d f ms ! i)"
proof (induction ms arbitrary: d f i)
  case Nil
  then show ?case by simp
next
  case (Cons m ms)
  let ?m' = "fst (cascade_step c u d f m)"
  let ?rest = "cascade_loop c u (next_startDate ?m') (snd (cascade_step c u d f m)) ms"
  show ?case
  proof (cases i)
    case 0
    with Cons.prems have "ms \<noteq> []" by auto
    then have "startDate (hd ?rest) = next_startDate ?m'" by (rule cascade_loop_hd)
    moreover have "?rest \<noteq> []" using \<open>ms \<noteq> []\<close> cascade_loop_length [of c u _ _ ms] by (metis length_0_conv)
    ultimately show ?thesis using 0
      by (simp add: cascade_loop_Cons hd_conv_nth del: cascade_loop.simps)
  next
    case (Suc j)
    with Cons.prems have "Suc j < length ms" by simp
    then have "startDate (?rest ! Suc j) = next_startDate (?rest ! j)" by (rule Cons.IH)
    then show ?thesis using Suc by (simp only: cascade_loop_Cons nth_Cons_Suc)
  qed
qed

lemma cascade_loop_status_keep:
  "f \<or> \<not> c \<Longrightarrow> map status (cascade_loop c u d f ms) = map status ms"
proof (induction ms arbitrary: d f)
  case Nil
  then show ?case by simp
next
  case (Cons m ms)
  from Cons.prems have "snd (cascade_step c u d f m) \<or> \<not> c"
    by (auto simp: cascade_step_status)
  then have "map status (cascade_loop c u (next_startDate (fst (cascade_step c u d f m)))
           (snd (cascade_step c u d f m)) ms) = map status ms" by (rule Cons.IH)
  moreover from Cons.prems have "status (fst (cascade_step c u d f m)) = status m"
    by (auto simp: cascade_step_status)
  ultimately show ?case by (simp only: cascade_loop_Cons list.map)
qed

lemma cascade_loop_status_first:
  "map status (cascade_loop True u d False ms) =
     map status (takeWhile hidden ms)
       @ (case dropWhile hidden ms of [] \<Rightarrow> []
          | m # rest \<Rightarrow> MILESTONE_STATUS_ACTIVE # map status rest)"
proof (induction ms arbitrary: d)
  case Nil
  then show ?case by simp
next
  case (Cons m ms)
  show ?case
  proof (cases "hidden m")
    case True
    then have "snd (cascade_step True u d False m) = False"
      "status (fst (cascade_step True u d False m)) = status m"
      by (simp_all add: cascade_step_status)
    with True Cons.IH show ?thesis by (simp add: cascade_loop_Cons del: cascade_loop.simps)
  next
    case False
    then have "snd (cascade_step True u d False m) = True"
      "status (fst (cascade_step True u d False m)) = MILESTONE_STATUS_ACTIVE"
      by (simp_all add: cascade_step_status)
    with False show ?thesis
      by (simp add: cascade_loop_Cons cascade_loop_status_keep del: cascade_loop.simps)
  qed
qed

lemma comingMilestones_sorted: "sorted (map order (comingMilestones updated rows))"
  by (simp add: comingMilestones_def)

lemma set_comingMilestones:
  "set (comingMilestones updated rows) =
     {r \<in> set rows. timelineId r = timelineId updated \<and> order updated < order r}"
  by (auto simp: comingMilestones_def)

section \<open>The handler and its steps\<close>

subsection \<open>The handler, step by step\<close>

lemma update_milestone_Inr:
  assumes "update_milestone now req st = (Inr (original, updated), st')"
  shows "findOne (params_timelineId req) (params_milestoneId req) (Milestone st) = Some original"
    and "\<not> completionDate_before_start (assign_audit req) original"
    and "updated = resolved now req original"
    and "st' = cascade_and_sync original updated
                 (st\<lparr>Milestone := reindex original updated (save updated (Milestone st))\<rparr>)"
  using assms
  by (auto simp: update_milestone_def Let_def split: option.splits if_splits)

lemma update_milestone_Some:
  assumes "findOne (params_timelineId req) (params_milestoneId req) (Milestone st) = Some m"
    and "\<not> completionDate_before_start (assign_audit req) m"
  shows "update_milestone now req st =
     (Inr (m, resolved now req m),
      cascade_and_sync m (resolved now req m)
        (st\<lparr>Milestone := reindex m (resolved now req m)
                             (save (resolved now req m) (Milestone st))\<rparr>))"
  using assms by (simp add: update_milestone_def Let_def)

lemma cascade_and_sync_rows:
  "Milestone (cascade_and_sync original updated st) =
     (if cascade_triggered original updated
      then map (lookup_saved (savedMilestones original updated (Milestone st))) (Milestone st)
      else Milestone st)"
  by (simp add: cascade_and_sync_def updateComingMilestones_def Let_def fold_save_map)

subsection \<open>Reindexing\<close>

lemma count_at_order_occupied:
  "(count_at_order updated rows = 0) =
     (\<not> slot_occupied (timelineId updated) (id_m updated) (order updated) rows)"
  by (auto simp: count_at_order_def slot_occupied_def filter_empty_conv)

lemma slot_occupied_save:
  "id_m u = mid \<Longrightarrow> slot_occupied tid mid K (save u rows) = slot_occupied tid mid K rows"
  by (auto simp: slot_occupied_def save_def)

lemma reindex_frame: "list_all2 order_frame rows (reindex original updated rows)"
  by (auto simp: reindex_def shift_orders_def order_frame_def list_all2_conv_all_nth)

lemma order_frame_fields:
  assumes "order_frame r r'"
  shows "id_m r' = id_m r" "timelineId r' = timelineId r"
proof -
  from assms have s: "r' = r\<lparr>order := order r'\<rparr>" by (simp add: order_frame_def)
  show "id_m r' = id_m r" by (subst s) simp
  show "timelineId r' = timelineId r" by (subst s) simp
qed

lemma reindex_map:
  "map id_m (reindex original updated rows) = map id_m rows"
  "map timelineId (reindex original updated rows) = map timelineId rows"
  using reindex_frame [of rows original updated]
  by (auto simp: list_all2_conv_all_nth order_frame_fields intro!: nth_equalityI)

lemma reindex_order:
  "map order (reindex original updated rows) =
     map (\<lambda>r. if timelineId r = timelineId updated \<and> id_m r \<noteq> id_m updated
               then order_after_move (order original) (order updated)
                      (slot_occupied (timelineId updated) (id_m updated) (order updated) rows)
                      (order r)
               else order r) rows"
  by (auto simp: reindex_def shift_orders_def order_after_move_def count_at_order_occupied)

lemma reindex_edited:
  "r \<in> set rows \<Longrightarrow> id_m r = id_m updated \<Longrightarrow> r \<in> set (reindex original updated rows)"
  by (auto simp: reindex_def shift_orders_def image_iff)

lemma reindex_same_order:
  "order original = order updated \<Longrightarrow> reindex original updated rows = rows"
  by (simp add: reindex_def)


subsection \<open>The rows after the cascade\<close>

lemma cascade_frame_refl: "cascade_frame r r"
  by (simp add: cascade_frame_def)

lemma savedMilestones_frame:
  "list_all2 cascade_frame (comingMilestones updated rows) (savedMilestones original updated rows)"
  by (simp add: savedMilestones_def cascade_loop_frame)

lemma savedMilestones_length:
  "length (savedMilestones original updated rows) = length (comingMilestones updated rows)"
  by (simp add: savedMilestones_def cascade_loop_length)

lemma savedMilestones_source:
  assumes "s \<in> set (savedMilestones original updated rows)"
  shows "\<exists>x \<in> set rows. cascade_frame x s \<and> timelineId x = timelineId updated
           \<and> order updated < order x"
proof -
  from assms obtain i where i: "i < length (savedMilestones original updated rows)"
    and s: "s = savedMilestones original updated rows ! i"
    by (auto simp: in_set_conv_nth)
  let ?x = "comingMilestones updated rows ! i"
  from i have ic: "i < length (comingMilestones updated rows)"
    by (simp add: savedMilestones_length)
  then have "?x \<in> set (comingMilestones updated rows)" by simp
  then have "?x \<in> set rows" "timelineId ?x = timelineId updated" "order updated < order ?x"
    by (simp_all add: set_comingMilestones)
  moreover from savedMilestones_frame [of updated rows original] ic s
  have "cascade_frame ?x s" by (simp add: list_all2_conv_all_nth)
  ultimately show ?thesis by blast
qed

lemma lookup_saved_frame:
  assumes "distinct (map id_m rows)" and "r \<in> set rows"
  shows "cascade_frame r (lookup_saved (savedMilestones original updated rows) r)"
proof -
  let ?saved = "savedMilestones original updated rows"
  from lookup_saved_cases [of ?saved r] show ?thesis
  proof
    assume "lookup_saved ?saved r = r \<and> id_m r \<notin> id_m ` set ?saved"
    then show ?thesis by (simp add: cascade_frame_refl)
  next
    assume a: "lookup_saved ?saved r \<in> set ?saved \<and> id_m (lookup_saved ?saved r) = id_m r"
    then obtain x where x: "x \<in> set rows" "cascade_frame x (lookup_saved ?saved r)"
      using savedMilestones_source by blast
    then have "id_m x = id_m r" using a by (simp add: cascade_frame_fields)
    with assms x(1) have "x = r"
      by (auto simp: distinct_map dest: inj_onD)
    with x show ?thesis by simp
  qed
qed

lemma cascade_rows_frame:
  "distinct (map id_m rows) \<Longrightarrow>
     list_all2 cascade_frame rows (map (lookup_saved (savedMilestones original updated rows)) rows)"
  by (simp add: list_all2_conv_all_nth lookup_saved_frame)

lemma cascade_and_sync_frame:
  assumes "distinct (map id_m (Milestone st))"
  shows "list_all2 cascade_frame (Milestone st) (Milestone (cascade_and_sync original updated st))"
proof (cases "cascade_triggered original updated")
  case True
  with assms show ?thesis by (simp add: cascade_and_sync_rows cascade_rows_frame)
next
  case False
  then show ?thesis
    by (simp add: cascade_and_sync_rows list_all2_conv_all_nth cascade_frame_refl)
qed

lemma list_all2_frame_map:
  assumes "list_all2 cascade_frame xs ys"
  shows "map id_m ys = map id_m xs" "map timelineId ys = map timelineId xs"
    "map order ys = map order xs"
  using assms
  by (auto simp: list_all2_conv_all_nth cascade_frame_fields intro!: nth_equalityI)


subsection \<open>Identifiers, timelines and orders after a successful update\<close>

lemma distinct_id_eq:
  "distinct (map id_m rows) \<Longrightarrow> a \<in> set rows \<Longrightarrow> b \<in> set rows \<Longrightarrow> id_m a = id_m b
     \<Longrightarrow> a = b"
  by (auto simp: distinct_map dest: inj_onD)

lemma final_keys:
  assumes u: "update_milestone now req st = (Inr (original, updated), st')"
    and d: "distinct (map id_m (Milestone st))"
  shows "map id_m (Milestone st') = map id_m (Milestone st)"
    and "map timelineId (Milestone st') = map timelineId (Milestone st)"
    and "map order (Milestone st') =
           map (order_after_update (params_timelineId req) (params_milestoneId req)
                  (order original) (order updated) (Milestone st)) (Milestone st)"
proof -
  let ?rows = "Milestone st"
  let ?tid = "params_timelineId req" and ?mid = "params_milestoneId req"
  let ?rows1 = "save updated ?rows"
  let ?rows2 = "reindex original updated ?rows1"
  note s = update_milestone_Inr [OF u]
  from s(1) have o: "original \<in> set ?rows" "timelineId original = ?tid" "id_m original = ?mid"
    by (simp_all add: findOne_SomeD)
  from s(3) have k: "id_m updated = ?mid" "timelineId updated = ?tid"
    using o by (simp_all add: resolved_fields)
  have ids2: "map id_m ?rows2 = map id_m ?rows"
    by (simp add: reindex_map save_keys)
  with d have d2: "distinct (map id_m ?rows2)" by simp
  have fr: "list_all2 cascade_frame ?rows2 (Milestone st')"
    using cascade_and_sync_frame [of "st\<lparr>Milestone := ?rows2\<rparr>" original updated] d2 s(4)
    by simp
  show "map id_m (Milestone st') = map id_m ?rows"
    using list_all2_frame_map(1) [OF fr] ids2 by simp
  have e: "r = original" if "r \<in> set ?rows" "id_m r = ?mid" for r
    using distinct_id_eq [OF d that(1) o(1)] that(2) o(3) by simp
  have tl1: "map timelineId ?rows1 = map timelineId ?rows"
    by (auto simp: save_def k o dest: e)
  show "map timelineId (Milestone st') = map timelineId ?rows"
    using list_all2_frame_map(2) [OF fr] tl1 by (simp add: reindex_map)
  have occ: "slot_occupied ?tid ?mid (order updated) ?rows1
               = slot_occupied ?tid ?mid (order updated) ?rows"
    using k(1) by (rule slot_occupied_save)
  have "map order ?rows2 =
          map (\<lambda>r. if timelineId r = ?tid \<and> id_m r \<noteq> ?mid
                    then order_after_move (order original) (order updated)
                           (slot_occupied ?tid ?mid (order updated) ?rows) (order r)
                    else order r) ?rows1"
    by (simp only: reindex_order k occ)
  also have "\<dots> =
          map (order_after_update ?tid ?mid (order original) (order updated) ?rows) ?rows"
    by (simp add: save_def order_after_update_def k)
  finally have "map order ?rows2 =
          map (order_after_update ?tid ?mid (order original) (order updated) ?rows) ?rows" .
  then show "map order (Milestone st') =
           map (order_after_update ?tid ?mid (order original) (order updated) ?rows) ?rows"
    using list_all2_frame_map(3) [OF fr] by simp
qed


lemma update_milestone_Inl:
  "update_milestone now req st = (Inl e, st') \<Longrightarrow> st' = st"
  by (auto simp: update_milestone_def Let_def split: option.splits if_splits)

lemma order_after_move_inj:
  "order_after_move M K occ a = order_after_move M K occ b \<Longrightarrow> a \<noteq> M \<Longrightarrow> b \<noteq> M \<Longrightarrow> a = b"
  by (auto simp: order_after_move_def split: if_splits)

lemma order_after_move_not_target:
  "order_after_move M K occ b = K \<Longrightarrow> b \<noteq> M \<Longrightarrow> (b = K \<longrightarrow> occ) \<Longrightarrow> False"
  by (auto simp: order_after_move_def split: if_splits)

lemma filter_map_keys:
  "map k ys = map k xs \<Longrightarrow> map g ys = map f xs
     \<Longrightarrow> map g (filter (\<lambda>r. k r = t) ys) = map f (filter (\<lambda>r. k r = t) xs)"
proof (induction xs arbitrary: ys)
  case Nil
  then show ?case by simp
next
  case (Cons x xs)
  then obtain y ys' where ys: "ys = y # ys'" by (cases ys) auto
  with Cons.prems have "k y = k x" "g y = f x" "map k ys' = map k xs" "map g ys' = map f xs"
    by simp_all
  with Cons.IH [of ys'] ys show ?case by simp
qed

lemma order_after_update_inj:
  assumes d: "distinct (map id_m rows)"
    and o: "distinct (map order (filter (\<lambda>r. timelineId r = t) rows))"
    and m: "m \<in> set rows" "timelineId m = tid" "id_m m = mid" "order m = M"
  shows "inj_on (order_after_update tid mid M K rows) (set (filter (\<lambda>r. timelineId r = t) rows))"
proof (rule inj_onI)
  fix a b
  let ?f = "order_after_update tid mid M K rows"
  let ?xs = "filter (\<lambda>r. timelineId r = t) rows"
  assume a: "a \<in> set ?xs" and b: "b \<in> set ?xs" and eq: "?f a = ?f b"
  from o have inj: "inj_on order (set ?xs)" by (simp add: distinct_map)
  have ed: "r = m" if "r \<in> set rows" "id_m r = mid" for r
    using distinct_id_eq [OF d that(1) m(1)] that(2) m(3) by simp
  have ordM: "order r \<noteq> M" if "r \<in> set ?xs" "id_m r \<noteq> mid" "t = tid" for r
  proof
    assume "order r = M"
    moreover from that m have "m \<in> set ?xs" by simp
    ultimately have "r = m" using inj that(1) m(4) by (auto dest: inj_onD)
    with that(2) m(3) show False by simp
  qed
  have "order a = order b"
  proof (cases "t = tid")
    case False
    with a b m have "id_m a \<noteq> mid" "id_m b \<noteq> mid" by (auto dest: ed)
    with a b False eq show ?thesis by (simp add: order_after_update_def)
  next
    case True
    consider "id_m a = mid" "id_m b = mid" | "id_m a = mid" "id_m b \<noteq> mid"
      | "id_m a \<noteq> mid" "id_m b = mid" | "id_m a \<noteq> mid" "id_m b \<noteq> mid" by blast
    then show ?thesis
    proof cases
      case 1
      with a b have "a = m" "b = m" by (auto dest: ed)
      then show ?thesis by simp
    next
      case 2
      with eq b True have k: "order_after_move M K (slot_occupied tid mid K rows) (order b) = K"
        by (simp add: order_after_update_def)
      have "order b = K \<longrightarrow> slot_occupied tid mid K rows"
        using b 2 True by (auto simp: slot_occupied_def)
      with k ordM [OF b 2(2) True] show ?thesis
        by (blast dest: order_after_move_not_target)
    next
      case 3
      with eq a True have k: "order_after_move M K (slot_occupied tid mid K rows) (order a) = K"
        by (simp add: order_after_update_def)
      have "order a = K \<longrightarrow> slot_occupied tid mid K rows"
        using a 3 True by (auto simp: slot_occupied_def)
      with k ordM [OF a 3(1) True] show ?thesis
        by (blast dest: order_after_move_not_target)
    next
      case 4
      with eq a b True
      have "order_after_move M K (slot_occupied tid mid K rows) (order a)
          = order_after_move M K (slot_occupied tid mid K rows) (order b)"
        by (simp add: order_after_update_def)
      then show ?thesis
        using ordM [OF a 4(1) True] ordM [OF b 4(2) True] by (rule order_after_move_inj)
    qed
  qed
  with inj a b show "a = b" by (auto dest: inj_onD)
qed

section \<open>Facts about the concrete tables\<close>

lemma scenario_B_rows:
  "Milestone scenario_B = [planned 11 1 5 (utc_date 2024 1 1) (utc_date 2024 1 5),
                   planned 12 2 3 (utc_date 2024 1 6) (utc_date 2024 1 8),
                   planned 13 3 4 (utc_date 2024 1 9) (utc_date 2024 1 12),
                   planned 14 4 1 (utc_date 2024 1 13) (utc_date 2024 1 13)]"
  by (simp add: scenario_B_def)

lemma planned_fields:
  "id_m (planned i ord dur sd ed) = i" "timelineId (planned i ord dur sd ed) = 1"
  "order (planned i ord dur sd ed) = ord" "duration (planned i ord dur sd ed) = dur"
  "startDate (planned i ord dur sd ed) = sd" "endDate (planned i ord dur sd ed) = ed"
  "completionDate (planned i ord dur sd ed) = None" "hidden (planned i ord dur sd ed) = False"
  "status (planned i ord dur sd ed) = ''planned''" "updatedBy (planned i ord dur sd ed) = 0"
  by (simp_all add: planned_def)

lemma edit_fields:
  "params_timelineId (edit tid mid b) = tid" "params_milestoneId (edit tid mid b) = mid"
  "body_param (edit tid mid b) = b" "authUser_userId (edit tid mid b) = 7"
  by (simp_all add: edit_def)

section \<open>The last milestone of the cascade\<close>

lemma save_mem: "m' \<in> set rows \<Longrightarrow> id_m m' = id_m m \<Longrightarrow> m \<in> set (save m rows)"
  by (auto simp: save_def image_iff)

lemma sorted_le_last:
  fixes xs :: "int list"
  shows "sorted xs \<Longrightarrow> x \<in> set xs \<Longrightarrow> x \<le> last xs"
  by (induction xs) (auto split: if_splits)

lemma savedMilestones_map:
  "map id_m (savedMilestones original updated rows) = map id_m (comingMilestones updated rows)"
  "map order (savedMilestones original updated rows) = map order (comingMilestones updated rows)"
  by (simp_all add: savedMilestones_def cascade_loop_map)

lemma updateComingMilestones_unfold:
  "updateComingMilestones original updated rows =
     (map (lookup_saved (savedMilestones original updated rows)) rows,
      if savedMilestones original updated rows = [] then updated
      else last (savedMilestones original updated rows))"
  by (simp add: updateComingMilestones_def Let_def fold_save_map)

lemma cascade_last:
  assumes m: "updated \<in> set rows"
  shows "snd (updateComingMilestones original updated rows)
           \<in> set (fst (updateComingMilestones original updated rows))"
    and "timelineId (snd (updateComingMilestones original updated rows)) = timelineId updated"
    and "\<forall>r \<in> set (fst (updateComingMilestones original updated rows)).
           timelineId r = timelineId updated
           \<longrightarrow> order r \<le> order (snd (updateComingMilestones original updated rows))"
    and "(\<forall>r \<in> set (fst (updateComingMilestones original updated rows)).
           timelineId r = timelineId updated \<longrightarrow> order r \<le> order updated)
         \<longrightarrow> snd (updateComingMilestones original updated rows) = updated"
proof -
  let ?saved = "savedMilestones original updated rows"
  let ?coming = "comingMilestones updated rows"
  let ?l = "snd (updateComingMilestones original updated rows)"
  let ?rows' = "fst (updateComingMilestones original updated rows)"
  have rows': "?rows' = map (lookup_saved ?saved) rows"
    by (simp add: updateComingMilestones_unfold)
  have len: "length ?saved = length ?coming" by (rule savedMilestones_length)
  have all: "?l \<in> set ?rows' \<and> timelineId ?l = timelineId updated
      \<and> (\<forall>r \<in> set ?rows'. timelineId r = timelineId updated \<longrightarrow> order r \<le> order ?l)
      \<and> ((\<forall>r \<in> set ?rows'. timelineId r = timelineId updated \<longrightarrow> order r \<le> order updated)
           \<longrightarrow> ?l = updated)"
  proof (cases "?saved = []")
    case True
    then have l: "?l = updated" by (simp add: updateComingMilestones_unfold)
    have "map (lookup_saved []) rows = rows"
      by (simp add: lookup_saved_Nil map_idI)
    with True have r: "?rows' = rows" by (simp add: rows')
    from True len have "set ?coming = {}" by simp
    then have "\<forall>r \<in> set rows. timelineId r = timelineId updated \<longrightarrow> order r \<le> order updated"
      by (auto simp: set_comingMilestones)
    with l r m show ?thesis by simp
  next
    case False
    then have l: "?l = last ?saved" by (simp add: updateComingMilestones_unfold)
    from False have ls: "last ?saved \<in> set ?saved" by simp
    then obtain x where x: "x \<in> set rows" "cascade_frame x (last ?saved)"
      "timelineId x = timelineId updated" "order updated < order x"
      using savedMilestones_source by blast
    note xf = cascade_frame_fields [OF x(2)]
    have "lookup_saved ?saved x = last ?saved"
      using False xf(1) by (simp add: lookup_saved_last)
    then have "last ?saved = lookup_saved ?saved x" by simp
    then have mem: "last ?saved \<in> set ?rows'"
      using x(1) unfolding rows' set_map by (rule image_eqI)
    have tl: "timelineId (last ?saved) = timelineId updated" using xf(2) x(3) by simp
    have gt: "order updated < order (last ?saved)" using xf(3) x(4) by simp
    have srt: "sorted (map order ?saved)"
      by (simp add: savedMilestones_map comingMilestones_sorted)
    have top: "order s \<le> order (last ?saved)" if "s \<in> set ?saved" for s
    proof -
      from that have "order s \<in> set (map order ?saved)" by simp
      with srt have "order s \<le> last (map order ?saved)" by (rule sorted_le_last)
      with False show ?thesis by (simp add: last_map)
    qed
    have bound: "order r' \<le> order (last ?saved)"
      if "r' \<in> set ?rows'" "timelineId r' = timelineId updated" for r'
    proof -
      from that(1) obtain r where r: "r \<in> set rows" "r' = lookup_saved ?saved r"
        by (auto simp: rows')
      from lookup_saved_cases [of ?saved r] show ?thesis
      proof
        assume a: "lookup_saved ?saved r = r \<and> id_m r \<notin> id_m ` set ?saved"
        have "\<not> order updated < order r"
        proof
          assume "order updated < order r"
          with r a that(2) have "r \<in> set ?coming" by (simp add: set_comingMilestones)
          then have "id_m r \<in> set (map id_m ?coming)" by simp
          then have "id_m r \<in> set (map id_m ?saved)" by (simp only: savedMilestones_map)
          with a show False by simp
        qed
        with gt a r show ?thesis by simp
      next
        assume "lookup_saved ?saved r \<in> set ?saved \<and> id_m (lookup_saved ?saved r) = id_m r"
        with r show ?thesis by (simp add: top)
      qed
    qed
    from mem tl gt have "\<not> (\<forall>r \<in> set ?rows'. timelineId r = timelineId updated
           \<longrightarrow> order r \<le> order updated)"
      by (auto simp: not_le)
    with mem tl bound l show ?thesis by (simp only: simp_thms) blast
  qed
  from all show "?l \<in> set ?rows'" by blast
  from all show "timelineId ?l = timelineId updated" by blast
  from all show "\<forall>r \<in> set ?rows'. timelineId r = timelineId updated \<longrightarrow> order r \<le> order ?l"
    by blast
  from all show "(\<forall>r \<in> set ?rows'. timelineId r = timelineId updated \<longrightarrow> order r \<le> order updated)
           \<longrightarrow> ?l = updated" by blast
qed

lemma cascade_and_sync_triggered:
  "cascade_triggered original updated \<Longrightarrow>
     cascade_and_sync original updated st =
       \<lparr>Milestone = fst (updateComingMilestones original updated (Milestone st)),
        req_timeline = sync_timeline (snd (updateComingMilestones original updated (Milestone st)))
                         (req_timeline st)\<rparr>"
  by (simp add: cascade_and_sync_def split: prod.splits)

lemma sync_timeline_endDate:
  "t_endDate (sync_timeline l tline) = endDate l"
  "sync_timeline l tline =
     (if endDate l = t_endDate tline then tline
      else tline\<lparr>t_endDate := endDate l, t_updatedBy := updatedBy l\<rparr>)"
  by (simp_all add: sync_timeline_def)

lemma updated_in_reindexed:
  assumes "update_milestone now req st = (Inr (original, updated), st')"
  shows "updated \<in> set (reindex original updated (save updated (Milestone st)))"
    and "timelineId updated = params_timelineId req"
proof -
  note s = update_milestone_Inr [OF assms]
  from s(1) have o: "original \<in> set (Milestone st)" "timelineId original = params_timelineId req"
    "id_m original = params_milestoneId req"
    by (simp_all add: findOne_SomeD)
  from s(3) have k: "id_m updated = id_m original" by (simp add: resolved_fields)
  from o(1) k have "updated \<in> set (save updated (Milestone st))"
    by (intro save_mem [of original]) simp_all
  then show "updated \<in> set (reindex original updated (save updated (Milestone st)))"
    by (rule reindex_edited) simp
  from s(3) show "timelineId updated = params_timelineId req" by (simp add: resolved_fields)
qed

lemma cascade_and_sync_idle:
  "\<not> cascade_triggered original updated \<Longrightarrow> cascade_and_sync original updated st = st"
  by (simp add: cascade_and_sync_def)

lemma save_nth_other:
  "i < length rows \<Longrightarrow> id_m (rows ! i) \<noteq> id_m m \<Longrightarrow> save m rows ! i = rows ! i"
  by (simp add: save_def)

lemma save_length: "length (save m rows) = length rows"
  by (simp add: save_def)

lemma reindex_length: "length (reindex original updated rows) = length rows"
  using reindex_frame [of rows original updated] by (simp add: list_all2_lengthD)

lemma resolved_order_only:
  "resolved now (edit 1 14 (empty_body\<lparr>e_order := Some 1\<rparr>))
     (planned 14 4 1 (utc_date 2024 1 13) (utc_date 2024 1 13))
   = (planned 14 1 1 (utc_date 2024 1 13) (utc_date 2024 1 13))\<lparr>updatedBy := 7\<rparr>"
  by (simp add: resolved_def instance_update_def merge_fields_def force_completed_def
      status_effects_def derive_endDate_def merge_details_def statusChanged_def
      durationChanged_def completionDateChanged_def assign_audit_def edit_def empty_body_def
      planned_def set_opt_def set_field_def)

lemma resolved_order_up:
  "resolved now (edit 1 11 (empty_body\<lparr>e_order := Some 4\<rparr>))
     (planned 11 1 5 (utc_date 2024 1 1) (utc_date 2024 1 5))
   = (planned 11 4 5 (utc_date 2024 1 1) (utc_date 2024 1 5))\<lparr>updatedBy := 7\<rparr>"
  by (simp add: resolved_def instance_update_def merge_fields_def force_completed_def
      status_effects_def derive_endDate_def merge_details_def statusChanged_def
      durationChanged_def completionDateChanged_def assign_audit_def edit_def empty_body_def
      planned_def set_opt_def set_field_def)

lemma resolved_name_only:
  "resolved now (edit 1 12 (empty_body\<lparr>e_name := Some ''Design''\<rparr>))
     (planned 12 2 3 (utc_date 2024 1 6) (utc_date 2024 1 8))
   = (planned 12 2 3 (utc_date 2024 1 6) (utc_date 2024 1 8))
       \<lparr>name := ''Design'', updatedBy := 7\<rparr>"
  by (simp add: resolved_def instance_update_def merge_fields_def force_completed_def
      status_effects_def derive_endDate_def merge_details_def statusChanged_def
      durationChanged_def completionDateChanged_def assign_audit_def edit_def empty_body_def
      planned_def set_opt_def set_field_def)

section \<open>The downstream rows after the cascade\<close>

lemma insort_key_map_frame:
  "k (g x) = k x \<Longrightarrow> \<forall>y \<in> set ys. k (g y) = k y
     \<Longrightarrow> insort_key k (g x) (map g ys) = map g (insort_key k x ys)"
  by (induction ys) simp_all

lemma sort_key_map_frame:
  "\<forall>x \<in> set xs. k (g x) = k x \<Longrightarrow> sort_key k (map g xs) = map g (sort_key k xs)"
  by (induction xs) (simp_all add: insort_key_map_frame)

lemma comingMilestones_map:
  assumes "\<forall>r \<in> set rows. timelineId (g r) = timelineId r \<and> order (g r) = order r"
  shows "comingMilestones updated (map g rows) = map g (comingMilestones updated rows)"
proof -
  let ?P = "\<lambda>r. timelineId r = timelineId updated \<and> order updated < order r"
  from assms have "filter ?P (map g rows) = map g (filter ?P rows)"
    by (induction rows) simp_all
  moreover from assms have "\<forall>x \<in> set (filter ?P rows). order (g x) = order x" by simp
  ultimately show ?thesis
    by (simp add: comingMilestones_def sort_key_map_frame)
qed

lemma comingMilestones_distinct:
  "distinct (map id_m rows) \<Longrightarrow> distinct (map id_m (comingMilestones updated rows))"
  by (auto simp: comingMilestones_def distinct_map intro: inj_on_subset)

lemma coming_after_cascade:
  assumes d: "distinct (map id_m rows)"
  shows "comingMilestones updated (fst (updateComingMilestones original updated rows))
           = savedMilestones original updated rows"
proof -
  let ?saved = "savedMilestones original updated rows"
  let ?coming = "comingMilestones updated rows"
  let ?g = "lookup_saved ?saved"
  have "\<forall>r \<in> set rows. timelineId (?g r) = timelineId r \<and> order (?g r) = order r"
    using lookup_saved_frame [OF d] by (simp add: cascade_frame_fields)
  then have "comingMilestones updated (map ?g rows) = map ?g ?coming"
    by (rule comingMilestones_map)
  moreover have "map ?g ?coming = ?saved"
  proof (rule nth_equalityI)
    show "length (map ?g ?coming) = length ?saved" by (simp add: savedMilestones_length)
  next
    fix i
    assume "i < length (map ?g ?coming)"
    then have i: "i < length ?coming" "i < length ?saved"
      by (simp_all add: savedMilestones_length)
    have ds: "distinct (map id_m ?saved)"
      using comingMilestones_distinct [OF d] by (simp only: savedMilestones_map)
    have "map id_m ?saved ! i = map id_m ?coming ! i" by (simp only: savedMilestones_map)
    with i have "id_m (?coming ! i) = id_m (?saved ! i)" by simp
    with ds i show "map ?g ?coming ! i = ?saved ! i"
      by (simp add: lookup_saved_distinct)
  qed
  ultimately show ?thesis by (simp add: updateComingMilestones_unfold)
qed

lemma lookup_saved_untouched:
  assumes d: "distinct (map id_m rows)" and r: "r \<in> set rows"
    and n: "\<not> (timelineId r = timelineId updated \<and> order updated < order r)"
  shows "lookup_saved (savedMilestones original updated rows) r = r"
proof -
  let ?saved = "savedMilestones original updated rows"
  from lookup_saved_cases [of ?saved r] show ?thesis
  proof
    assume "lookup_saved ?saved r = r \<and> id_m r \<notin> id_m ` set ?saved"
    then show ?thesis by simp
  next
    assume a: "lookup_saved ?saved r \<in> set ?saved \<and> id_m (lookup_saved ?saved r) = id_m r"
    then obtain x where x: "x \<in> set rows" "cascade_frame x (lookup_saved ?saved r)"
      "timelineId x = timelineId updated" "order updated < order x"
      using savedMilestones_source by blast
    from x(2) a have "id_m x = id_m r" by (simp add: cascade_frame_fields)
    with d x(1) r have "x = r" by (rule distinct_id_eq)
    with x(3,4) n show ?thesis by simp
  qed
qed

lemma cascade_step_hidden: "hidden (fst (cascade_step c u d f m)) = hidden m"
  using cascade_frame_fields(5) [OF cascade_step_frame [of m c u d f]] .

lemma cascade_loop_first_active:
  "dropWhile hidden (cascade_loop True u d False ms) = x # rest
     \<Longrightarrow> status x = MILESTONE_STATUS_ACTIVE"
proof (induction ms arbitrary: d)
  case Nil
  then show ?case by simp
next
  case (Cons m ms)
  show ?case
  proof (cases "hidden m")
    case True
    then have "snd (cascade_step True u d False m) = False"
      by (simp add: cascade_step_status)
    with True Cons.prems
    have "dropWhile hidden (cascade_loop True u
             (next_startDate (fst (cascade_step True u d False m))) False ms) = x # rest"
      by (simp add: cascade_loop_Cons cascade_step_hidden del: cascade_loop.simps)
    then show ?thesis by (rule Cons.IH)
  next
    case False
    with Cons.prems have "x = fst (cascade_step True u d False m)"
      by (simp add: cascade_loop_Cons cascade_step_hidden del: cascade_loop.simps)
    with False show ?thesis by (simp add: cascade_step_status)
  qed
qed

lemma savedMilestones_hidden:
  "map hidden (savedMilestones original updated rows)
     = map hidden (comingMilestones updated rows)"
  by (simp add: savedMilestones_def cascade_loop_map)

lemma completed_E_fields:
  "id_m completed_E = 11" "timelineId completed_E = 1" "order completed_E = 1"
  "completionDate completed_E = Some (utc_date 2024 1 3)"
  "status completed_E = MILESTONE_STATUS_COMPLETED"
  by (simp_all add: completed_E_def planned_def)

section \<open>The scenarios, step by step\<close>

lemma cascade_step_kept:
  "id_m (fst (cascade_step c u d f m)) = id_m m"
  "order (fst (cascade_step c u d f m)) = order m"
  "completionDate (fst (cascade_step c u d f m)) = completionDate m"
  "duration (fst (cascade_step c u d f m)) = duration m"
  using cascade_frame_fields [OF cascade_step_frame [of m c u d f]] by simp_all

lemma resolved_scenario_A:
  "resolved now (edit 1 11 (empty_body\<lparr>e_duration := Some 10\<rparr>))
     (planned 11 1 5 (utc_date 2024 1 1) e1)
   = (planned 11 1 10 (utc_date 2024 1 1) (utc_date 2024 1 10))\<lparr>updatedBy := 7\<rparr>"
  by (simp add: resolved_def instance_update_def merge_fields_def force_completed_def
      status_effects_def derive_endDate_def merge_details_def statusChanged_def
      durationChanged_def completionDateChanged_def assign_audit_def edit_def empty_body_def
      planned_def set_opt_def set_field_def utc_dates_2024 add_days_def)

lemma scenario_A_result:
  fixes now e1 s2 e2 s3 e3 te
  defines "u \<equiv> (planned 11 1 10 (utc_date 2024 1 1) (utc_date 2024 1 10))\<lparr>updatedBy := 7\<rparr>"
  defines "m1 \<equiv> planned 11 1 5 (utc_date 2024 1 1) e1"
  defines "x2 \<equiv> fst (cascade_step (completionDate m1 \<noteq> completionDate u) (updatedBy u)
                       (next_startDate u) False (planned 12 2 3 s2 e2))"
  defines "f2 \<equiv> snd (cascade_step (completionDate m1 \<noteq> completionDate u) (updatedBy u)
                       (next_startDate u) False (planned 12 2 3 s2 e2))"
  defines "x3 \<equiv> fst (cascade_step (completionDate m1 \<noteq> completionDate u) (updatedBy u)
                       (next_startDate x2) f2 (planned 13 3 4 s3 e3))"
  shows "update_milestone now (edit 1 11 (empty_body\<lparr>e_duration := Some 10\<rparr>))
           (scenario_A e1 s2 e2 s3 e3 te)
         = (Inr (m1, u),
            \<lparr>Milestone = [u, x2, x3],
             req_timeline = sync_timeline x3 \<lparr>id_t = 1, t_endDate = te, t_updatedBy = 0\<rparr>\<rparr>)"
proof -
  let ?req = "edit 1 11 (empty_body\<lparr>e_duration := Some 10\<rparr>)"
  let ?st = "scenario_A e1 s2 e2 s3 e3 te"
  let ?m2 = "planned 12 2 3 s2 e2" and ?m3 = "planned 13 3 4 s3 e3"
  have rows: "Milestone ?st = [m1, ?m2, ?m3]" by (simp add: scenario_A_def m1_def)
  have tl: "req_timeline ?st = \<lparr>id_t = 1, t_endDate = te, t_updatedBy = 0\<rparr>"
    by (simp add: scenario_A_def)
  have f: "findOne (params_timelineId ?req) (params_milestoneId ?req) (Milestone ?st) = Some m1"
    by (simp add: findOne_def rows m1_def planned_fields edit_fields)
  have v: "\<not> completionDate_before_start (assign_audit ?req) m1"
    by (simp add: completionDate_before_start_def assign_audit_fields edit_fields empty_body_def)
  have r: "resolved now ?req m1 = u" by (simp add: m1_def u_def resolved_scenario_A)
  have ku: "id_m u = 11" "timelineId u = 1" "order u = 1" "duration u = 10"
    by (simp_all add: u_def planned_def)
  have rows1: "save u (Milestone ?st) = [u, ?m2, ?m3]"
    by (simp add: save_def rows ku m1_def planned_fields)
  have rows2: "reindex m1 u [u, ?m2, ?m3] = [u, ?m2, ?m3]"
    by (simp add: reindex_same_order ku m1_def planned_fields)
  have tr: "cascade_triggered m1 u"
    by (simp add: cascade_triggered_def ku m1_def planned_fields)
  have co: "comingMilestones u [u, ?m2, ?m3] = [?m2, ?m3]"
    by (simp add: comingMilestones_def ku planned_fields)
  have sv: "savedMilestones m1 u [u, ?m2, ?m3] = [x2, x3]"
    by (simp only: savedMilestones_def co cascade_loop_Cons cascade_loop.simps(1)
        x2_def x3_def f2_def)
  have ids: "id_m x2 = 12" "id_m x3 = 13"
    by (simp_all add: x2_def x3_def cascade_step_kept planned_fields)
  have fin: "updateComingMilestones m1 u [u, ?m2, ?m3] = ([u, x2, x3], x3)"
    by (simp add: updateComingMilestones_unfold sv lookup_saved_def ids ku planned_fields)
  have "cascade_and_sync m1 u (?st\<lparr>Milestone := [u, ?m2, ?m3]\<rparr>)
      = \<lparr>Milestone = [u, x2, x3],
         req_timeline = sync_timeline x3 \<lparr>id_t = 1, t_endDate = te, t_updatedBy = 0\<rparr>\<rparr>"
    by (simp add: cascade_and_sync_triggered [OF tr] fin tl)
  with update_milestone_Some [OF f v, of now] show ?thesis
    by (simp only: r rows1 rows2)
qed

lemma today_noon: "today noon_2024_02_01 = utc_date 2024 2 1"
  by (simp add: today_def noon_2024_02_01_def utc_dates_2024 day_ms_def)

lemma resolved_activate:
  "resolved noon_2024_02_01 (edit 1 11 (empty_body\<lparr>e_status := Some MILESTONE_STATUS_ACTIVE\<rparr>))
     (planned 11 1 5 (utc_date 2024 1 1) (utc_date 2024 1 5))
   = (planned 11 1 5 (utc_date 2024 2 1) (utc_date 2024 1 5))
       \<lparr>status := MILESTONE_STATUS_ACTIVE, updatedBy := 7\<rparr>"
  by (simp add: resolved_def today_noon instance_update_def merge_fields_def force_completed_def
      status_effects_def derive_endDate_def merge_details_def statusChanged_def
      durationChanged_def completionDateChanged_def assign_audit_def edit_def empty_body_def
      planned_def set_opt_def set_field_def MILESTONE_STATUS_ACTIVE_def
      MILESTONE_STATUS_COMPLETED_def)

section \<open>Field merge: status transitions\<close>

text \<open>
  C6. When the requested status differs from the stored one, a transition to COMPLETED with
  no completion date supplied (absent or null) stores today's UTC midnight as completion
  date, and a transition to ACTIVE stores today's UTC midnight as start date. When the status
  did not change and a completion date that differs from the stored one is supplied, the
  stored status becomes COMPLETED. When the status did change, the stored status is the
  requested one: the forcing does not fire. The date used is midnight: a multiple of a day,
  at most the clock reading and less than a day before it.
\<close>

theorem status_transition_effects:
  "(statusChanged (body_param req) m
      \<and> e_status (body_param req) = Some MILESTONE_STATUS_COMPLETED
      \<and> e_completionDate (body_param req) \<in> {Absent, Null}
      \<longrightarrow> completionDate (resolved now req m) = Some (today now))
   \<and> (statusChanged (body_param req) m
      \<and> e_status (body_param req) = Some MILESTONE_STATUS_ACTIVE
      \<longrightarrow> startDate (resolved now req m) = today now)
   \<and> (\<not> statusChanged (body_param req) m
      \<and> e_completionDate (body_param req) = Val d \<and> completionDate m \<noteq> Some d
      \<longrightarrow> status (resolved now req m) = MILESTONE_STATUS_COMPLETED)
   \<and> (statusChanged (body_param req) m
      \<longrightarrow> e_status (body_param req) = Some (status (resolved now req m)))
   \<and> today now mod day_ms = 0 \<and> today now \<le> now \<and> now < today now + day_ms"
proof -
  have a: "statusChanged (body_param req) m
      \<and> e_status (body_param req) = Some MILESTONE_STATUS_COMPLETED
      \<and> e_completionDate (body_param req) \<in> {Absent, Null}
      \<longrightarrow> completionDate (resolved now req m) = Some (today now)"
    by (auto simp: resolved_fields merge_fields_completionDate set_field_def
        flags_assign_audit assign_audit_fields)
  have b: "statusChanged (body_param req) m
      \<and> e_status (body_param req) = Some MILESTONE_STATUS_ACTIVE
      \<longrightarrow> startDate (resolved now req m) = today now"
    by (simp add: resolved_fields merge_fields_startDate set_opt_def
        flags_assign_audit assign_audit_fields)
  have c: "\<not> statusChanged (body_param req) m
      \<and> e_completionDate (body_param req) = Val d \<and> completionDate m \<noteq> Some d
      \<longrightarrow> status (resolved now req m) = MILESTONE_STATUS_COMPLETED"
    by (simp add: resolved_fields merge_fields_status set_opt_def completionDateChanged_def
        flags_assign_audit assign_audit_fields)
  have d: "statusChanged (body_param req) m
      \<longrightarrow> e_status (body_param req) = Some (status (resolved now req m))"
    by (auto simp: resolved_fields merge_fields_status set_opt_def statusChanged_def
        flags_assign_audit assign_audit_fields split: option.splits)
  from a b c d today_midnight [of now] show ?thesis by blast
qed


theorem status_transition_effects_witness:
  "statusChanged (empty_body\<lparr>e_status := Some MILESTONE_STATUS_COMPLETED\<rparr>)
     (planned 11 1 5 (utc_date 2024 1 1) (utc_date 2024 1 5))
   \<and> completionDate (resolved noon_2024_02_01
        (edit 1 11 (empty_body\<lparr>e_status := Some MILESTONE_STATUS_COMPLETED\<rparr>))
        (planned 11 1 5 (utc_date 2024 1 1) (utc_date 2024 1 5))) = Some (utc_date 2024 2 1)
   \<and> statusChanged (empty_body\<lparr>e_status := Some MILESTONE_STATUS_ACTIVE\<rparr>)
       (planned 11 1 5 (utc_date 2024 1 1) (utc_date 2024 1 5))
   \<and> startDate (resolved noon_2024_02_01
        (edit 1 11 (empty_body\<lparr>e_status := Some MILESTONE_STATUS_ACTIVE\<rparr>))
        (planned 11 1 5 (utc_date 2024 1 1) (utc_date 2024 1 5))) = utc_date 2024 2 1
   \<and> status (resolved noon_2024_02_01
        (edit 1 11 (empty_body\<lparr>e_status := Some MILESTONE_STATUS_ACTIVE\<rparr>))
        (planned 11 1 5 (utc_date 2024 1 1) (utc_date 2024 1 5))) = MILESTONE_STATUS_ACTIVE
   \<and> \<not> statusChanged (empty_body\<lparr>e_completionDate := Val (utc_date 2024 1 3)\<rparr>)
       (planned 11 1 5 (utc_date 2024 1 1) (utc_date 2024 1 5))
   \<and> status (resolved noon_2024_02_01
        (edit 1 11 (empty_body\<lparr>e_completionDate := Val (utc_date 2024 1 3)\<rparr>))
        (planned 11 1 5 (utc_date 2024 1 1) (utc_date 2024 1 5))) = MILESTONE_STATUS_COMPLETED"
proof -
  let ?m = "planned 11 1 5 (utc_date 2024 1 1) (utc_date 2024 1 5)"
  let ?bc = "empty_body\<lparr>e_status := Some MILESTONE_STATUS_COMPLETED\<rparr>"
  let ?ba = "empty_body\<lparr>e_status := Some MILESTONE_STATUS_ACTIVE\<rparr>"
  let ?bd = "empty_body\<lparr>e_completionDate := Val (utc_date 2024 1 3)\<rparr>"
  have c: "statusChanged ?bc ?m" "e_status ?bc = Some MILESTONE_STATUS_COMPLETED"
    "e_completionDate ?bc \<in> {Absent, Null}"
    by (simp_all add: statusChanged_def empty_body_def planned_fields
        MILESTONE_STATUS_COMPLETED_def)
  have a: "statusChanged ?ba ?m" "e_status ?ba = Some MILESTONE_STATUS_ACTIVE"
    by (simp_all add: statusChanged_def empty_body_def planned_fields
        MILESTONE_STATUS_ACTIVE_def)
  have d: "\<not> statusChanged ?bd ?m" "e_completionDate ?bd = Val (utc_date 2024 1 3)"
    "completionDate ?m \<noteq> Some (utc_date 2024 1 3)"
    by (simp_all add: statusChanged_def empty_body_def planned_fields)
  from status_transition_effects [where req = "edit 1 11 ?bc" and m = ?m and now = noon_2024_02_01] c
  have 1: "completionDate (resolved noon_2024_02_01 (edit 1 11 ?bc) ?m) = Some (utc_date 2024 2 1)"
    by (simp only: edit_fields today_noon simp_thms)
  from status_transition_effects [where req = "edit 1 11 ?ba" and m = ?m and now = noon_2024_02_01] a
  have 2: "startDate (resolved noon_2024_02_01 (edit 1 11 ?ba) ?m) = utc_date 2024 2 1"
    "status (resolved noon_2024_02_01 (edit 1 11 ?ba) ?m) = MILESTONE_STATUS_ACTIVE"
    by (simp_all only: edit_fields today_noon simp_thms option.inject)
  from status_transition_effects [where req = "edit 1 11 ?bd" and m = ?m and now = noon_2024_02_01
      and d = "utc_date 2024 1 3"] d
  have 3: "status (resolved noon_2024_02_01 (edit 1 11 ?bd) ?m) = MILESTONE_STATUS_COMPLETED"
    by (simp only: edit_fields simp_thms)
  from c(1) a(1) d(1) 1 2 3 show ?thesis by (simp only: simp_thms)
qed

section \<open>Validation of the completion date\<close>

text \<open>
  C7. If the request supplies a completion date strictly earlier than the start date of the
  stored milestone, the handler fails with status 422 and the stored state (every milestone
  row and the timeline) is the one before the request.
\<close>

theorem early_completionDate_rejected:
  assumes "findOne (params_timelineId req) (params_milestoneId req) (Milestone st) = Some m"
    and "e_completionDate (body_param req) = Val d"
    and "d < startDate m"
  shows "update_milestone now req st = (Inl (ApiErr 422), st)"
  using assms
  by (simp add: update_milestone_def completionDate_before_start_def assign_audit_def)

theorem early_completionDate_rejected_witness:
  "findOne 1 11 (Milestone (scenario_A 0 0 0 0 0 0))
     = Some (planned 11 1 5 (utc_date 2024 1 1) 0)
   \<and> utc_date 2023 12 31 < startDate (planned 11 1 5 (utc_date 2024 1 1) 0)
   \<and> update_milestone 0 (edit 1 11 (empty_body\<lparr>e_completionDate := Val (utc_date 2023 12 31)\<rparr>))
        (scenario_A 0 0 0 0 0 0)
     = (Inl (ApiErr 422), scenario_A 0 0 0 0 0 0)"
proof -
  have f: "findOne (params_timelineId (edit 1 11 (empty_body\<lparr>e_completionDate := Val (utc_date 2023 12 31)\<rparr>)))
             (params_milestoneId (edit 1 11 (empty_body\<lparr>e_completionDate := Val (utc_date 2023 12 31)\<rparr>)))
             (Milestone (scenario_A 0 0 0 0 0 0))
           = Some (planned 11 1 5 (utc_date 2024 1 1) 0)"
    by (simp add: findOne_def scenario_A_def scenario_defs)
  have c: "e_completionDate (body_param (edit 1 11 (empty_body\<lparr>e_completionDate := Val (utc_date 2023 12 31)\<rparr>)))
           = Val (utc_date 2023 12 31)"
    by (simp add: scenario_defs)
  have d: "utc_date 2023 12 31 < startDate (planned 11 1 5 (utc_date 2024 1 1) 0)"
    by (simp add: scenario_defs utc_date_def day_ms_def Let_def)
  from early_completionDate_rejected [OF f c d, of 0] f d show ?thesis
    by (simp add: edit_def)
qed

section \<open>Activation of the next visible milestone\<close>

text \<open>
  C5. Let the identifiers of the table be distinct, and consider the table that
  \<^verbatim>\<open>updateComingMilestones\<close> leaves after its saves. Every row is in its place; a row that
  is not downstream (not of the timeline, or with an order that is not greater than the
  edited one's) is exactly as before, and a downstream row differs at most in start date,
  end date, status and \<open>updatedBy\<close>. Read from the stored table in ascending order, the
  downstream rows are the same milestones as before, hidden or not as before. When the
  completion date of the edited milestone changed, the hidden rows at the front keep their
  status, the first row that is not hidden is ACTIVE and every later row keeps its status:
  at most one activation, of the first visible downstream milestone. When the completion
  date did not change (a cascade triggered by the duration alone), every stored status is
  the one before. In both cases every stored downstream row, hidden or not, ends
  \<open>duration - 1\<close> days after its start, the first one starts the day after the edited
  milestone's completion date or else end date, and each next one the day after its
  predecessor's.
\<close>

theorem single_activation:
  assumes d: "distinct (map id_m rows)"
  shows "map id_m (fst (updateComingMilestones original updated rows)) = map id_m rows
   \<and> list_all2 cascade_frame rows (fst (updateComingMilestones original updated rows))
   \<and> list_all2 (\<lambda>r r'. \<not> (timelineId r = timelineId updated \<and> order updated < order r)
                    \<longrightarrow> r' = r)
        rows (fst (updateComingMilestones original updated rows))
   \<and> sorted (map order (comingMilestones updated rows))
   \<and> set (comingMilestones updated rows) =
       {r \<in> set rows. timelineId r = timelineId updated \<and> order updated < order r}
   \<and> map id_m (comingMilestones updated (fst (updateComingMilestones original updated rows)))
       = map id_m (comingMilestones updated rows)
   \<and> map hidden (comingMilestones updated (fst (updateComingMilestones original updated rows)))
       = map hidden (comingMilestones updated rows)
   \<and> (completionDate original \<noteq> completionDate updated \<longrightarrow>
        map status (comingMilestones updated (fst (updateComingMilestones original updated rows)))
          = map status (takeWhile hidden (comingMilestones updated rows))
            @ (case dropWhile hidden (comingMilestones updated rows) of [] \<Rightarrow> []
               | m # rest \<Rightarrow> MILESTONE_STATUS_ACTIVE # map status rest))
   \<and> (completionDate original = completionDate updated \<longrightarrow>
        map status (comingMilestones updated (fst (updateComingMilestones original updated rows)))
          = map status (comingMilestones updated rows))
   \<and> (\<forall>s \<in> set (comingMilestones updated
                      (fst (updateComingMilestones original updated rows))).
         endDate s = add_days (startDate s) (duration s - 1))
   \<and> (comingMilestones updated rows \<noteq> [] \<longrightarrow>
         startDate (hd (comingMilestones updated
                          (fst (updateComingMilestones original updated rows))))
           = next_startDate updated)
   \<and> (\<forall>i. Suc i < length (comingMilestones updated rows) \<longrightarrow>
         startDate (comingMilestones updated
                      (fst (updateComingMilestones original updated rows)) ! Suc i)
           = next_startDate (comingMilestones updated
                               (fst (updateComingMilestones original updated rows)) ! i))"
proof -
  let ?coming = "comingMilestones updated rows"
  let ?saved = "savedMilestones original updated rows"
  let ?rows' = "fst (updateComingMilestones original updated rows)"
  have rows': "?rows' = map (lookup_saved ?saved) rows"
    by (simp add: updateComingMilestones_unfold)
  have cm: "comingMilestones updated ?rows' = ?saved"
    using d by (rule coming_after_cascade)
  have fr: "list_all2 cascade_frame rows ?rows'"
    using d by (simp add: rows' cascade_rows_frame)
  have ids: "map id_m ?rows' = map id_m rows"
    using fr by (rule list_all2_frame_map(1))
  have keep: "list_all2 (\<lambda>r r'. \<not> (timelineId r = timelineId updated \<and> order updated < order r)
                    \<longrightarrow> r' = r) rows ?rows'"
    using d by (simp add: rows' list_all2_conv_all_nth lookup_saved_untouched)
  have a: "completionDate original \<noteq> completionDate updated \<longrightarrow>
      map status ?saved = map status (takeWhile hidden ?coming)
          @ (case dropWhile hidden ?coming of [] \<Rightarrow> []
             | m # rest \<Rightarrow> MILESTONE_STATUS_ACTIVE # map status rest)"
    by (simp add: savedMilestones_def cascade_loop_status_first)
  have b: "completionDate original = completionDate updated \<longrightarrow>
      map status ?saved = map status ?coming"
    by (simp add: savedMilestones_def cascade_loop_status_keep)
  have c: "map id_m ?saved = map id_m ?coming" "map hidden ?saved = map hidden ?coming"
    by (simp_all add: savedMilestones_def cascade_loop_map)
  have e: "\<forall>s \<in> set ?saved. endDate s = add_days (startDate s) (duration s - 1)"
    unfolding savedMilestones_def by (blast intro: cascade_loop_endDate)
  have f: "?coming \<noteq> [] \<longrightarrow> startDate (hd ?saved) = next_startDate updated"
    by (simp add: savedMilestones_def cascade_loop_hd)
  have g: "\<forall>i. Suc i < length ?coming \<longrightarrow>
         startDate (?saved ! Suc i) = next_startDate (?saved ! i)"
    by (simp add: savedMilestones_def cascade_loop_chain)
  from ids fr keep a b c e f g comingMilestones_sorted [of updated rows]
    set_comingMilestones [of updated rows]
  show ?thesis unfolding cm by (intro conjI)
qed


lemma scenario_E_coming:
  "comingMilestones completed_E scenario_E = tl scenario_E"
  by (simp add: comingMilestones_def scenario_E_def completed_E_def planned_def)

theorem single_activation_witness:
  "distinct (map id_m scenario_E)
   \<and> completionDate (planned 11 1 5 (utc_date 2024 1 1) (utc_date 2024 1 5))
     \<noteq> completionDate completed_E
   \<and> scenario_E ! 0 = completed_E
   \<and> fst (updateComingMilestones (planned 11 1 5 (utc_date 2024 1 1) (utc_date 2024 1 5))
            completed_E scenario_E) ! 0 = completed_E
   \<and> map id_m (comingMilestones completed_E
        (fst (updateComingMilestones (planned 11 1 5 (utc_date 2024 1 1) (utc_date 2024 1 5))
                completed_E scenario_E))) = [12, 13]
   \<and> map hidden (comingMilestones completed_E
        (fst (updateComingMilestones (planned 11 1 5 (utc_date 2024 1 1) (utc_date 2024 1 5))
                completed_E scenario_E))) = [True, False]
   \<and> map status (comingMilestones completed_E
        (fst (updateComingMilestones (planned 11 1 5 (utc_date 2024 1 1) (utc_date 2024 1 5))
                completed_E scenario_E))) = [''planned'', MILESTONE_STATUS_ACTIVE]
   \<and> map status (comingMilestones completed_E
        (fst (updateComingMilestones completed_E completed_E scenario_E)))
       = [''planned'', ''planned'']"
proof -
  let ?o = "planned 11 1 5 (utc_date 2024 1 1) (utc_date 2024 1 5)"
  let ?t = "fst (updateComingMilestones ?o completed_E scenario_E)"
  let ?t' = "fst (updateComingMilestones completed_E completed_E scenario_E)"
  have d: "distinct (map id_m scenario_E)"
    by (simp add: scenario_E_def completed_E_fields planned_def)
  have h: "completionDate ?o \<noteq> completionDate completed_E"
    by (simp add: completed_E_def planned_def)
  have r0: "scenario_E ! 0 = completed_E" by (simp add: scenario_E_def)
  have up: "\<not> (timelineId (scenario_E ! 0) = timelineId completed_E
                \<and> order completed_E < order (scenario_E ! 0))"
    by (simp add: r0)
  have len: "0 < length scenario_E" by (simp add: scenario_E_def)
  have ids: "map id_m (comingMilestones completed_E scenario_E) = [12, 13]"
    by (simp add: scenario_E_coming) (simp add: scenario_E_def planned_def)
  have hid: "map hidden (comingMilestones completed_E scenario_E) = [True, False]"
    by (simp add: scenario_E_coming) (simp add: scenario_E_def planned_def)
  have tw: "map status (takeWhile hidden (comingMilestones completed_E scenario_E))
          @ (case dropWhile hidden (comingMilestones completed_E scenario_E) of [] \<Rightarrow> []
             | m # rest \<Rightarrow> MILESTONE_STATUS_ACTIVE # map status rest)
          = [''planned'', MILESTONE_STATUS_ACTIVE]"
    by (simp add: scenario_E_coming) (simp add: scenario_E_def planned_def)
  have st: "map status (comingMilestones completed_E scenario_E) = [''planned'', ''planned'']"
    by (simp add: scenario_E_coming) (simp add: scenario_E_def planned_def)
  note t = single_activation [OF d, of ?o completed_E]
  note keep = t [THEN conjunct2, THEN conjunct2, THEN conjunct1]
  from keep len up have 0: "?t ! 0 = completed_E"
    by (simp add: list_all2_conv_all_nth r0)
  note rest = t [THEN conjunct2, THEN conjunct2, THEN conjunct2, THEN conjunct2,
      THEN conjunct2]
  have 1: "map id_m (comingMilestones completed_E ?t) = [12, 13]"
    using rest [THEN conjunct1] by (simp only: ids)
  have 2: "map hidden (comingMilestones completed_E ?t) = [True, False]"
    using rest [THEN conjunct2, THEN conjunct1] by (simp only: hid)
  have 3: "map status (comingMilestones completed_E ?t) = [''planned'', MILESTONE_STATUS_ACTIVE]"
    using rest [THEN conjunct2, THEN conjunct2, THEN conjunct1, THEN mp, OF h]
    by (simp only: tw)
  have 4: "map status (comingMilestones completed_E ?t') = [''planned'', ''planned'']"
    using single_activation [OF d, of completed_E completed_E, THEN conjunct2,
      THEN conjunct2, THEN conjunct2, THEN conjunct2, THEN conjunct2, THEN conjunct2,
      THEN conjunct2, THEN conjunct2, THEN conjunct1, THEN mp, OF refl]
    by (simp only: st)
  from d h r0 0 1 2 3 4 show ?thesis by (simp only: simp_thms)
qed

section \<open>Renumbering after a move\<close>

text \<open>
  C3. After a successful update of a table with a primary key, the edited milestone has the
  requested order (its previous order when none is requested), every row keeps its
  identifier, and the order of every other row is the one the spec describes: when the
  order moved from \<open>M\<close> to a slot \<open>K\<close> that another milestone of the timeline occupies,
  the other milestones of the timeline with an order from \<open>M + 1\<close> to \<open>K\<close> lose one
  if \<open>K > M\<close>, those with an order from \<open>K\<close> to \<open>M - 1\<close> gain one if \<open>K < M\<close>;
  when the slot is free or the order is the previous one, and for every other row, the order
  does not change.
\<close>

theorem order_shift:
  assumes "update_milestone now req st = (Inr (original, updated), st')"
    and "distinct (map id_m (Milestone st))"
  shows "order updated = (case e_order (body_param req) of Some k \<Rightarrow> k | None \<Rightarrow> order original)
    \<and> map id_m (Milestone st') = map id_m (Milestone st)
    \<and> map order (Milestone st') =
         map (order_after_update (params_timelineId req) (params_milestoneId req)
                (order original) (order updated) (Milestone st)) (Milestone st)"
  using final_keys(1,3) [OF assms] update_milestone_Inr(3) [OF assms(1)]
  by (simp add: resolved_fields set_opt_def)

theorem order_shift_witness:
  "distinct (map id_m (Milestone scenario_B))
   \<and> map id_m (Milestone (snd (update_milestone 0 (edit 1 12 (empty_body\<lparr>e_order := Some 4\<rparr>))
                                  scenario_B))) = [11, 12, 13, 14]
   \<and> map order (Milestone (snd (update_milestone 0 (edit 1 12 (empty_body\<lparr>e_order := Some 4\<rparr>))
                                   scenario_B))) = [1, 4, 2, 3]"
proof -
  let ?req = "edit 1 12 (empty_body\<lparr>e_order := Some 4\<rparr>)"
  let ?m = "planned 12 2 3 (utc_date 2024 1 6) (utc_date 2024 1 8)"
  have f: "findOne (params_timelineId ?req) (params_milestoneId ?req) (Milestone scenario_B)
             = Some ?m"
    by (simp add: findOne_def scenario_B_rows planned_fields edit_fields)
  have v: "\<not> completionDate_before_start (assign_audit ?req) ?m"
    by (simp add: completionDate_before_start_def assign_audit_fields edit_fields empty_body_def)
  define st' where "st' = snd (update_milestone 0 ?req scenario_B)"
  have eq: "update_milestone 0 ?req scenario_B = (Inr (?m, resolved 0 ?req ?m), st')"
    by (simp add: st'_def update_milestone_Some [OF f v])
  have dist: "distinct (map id_m (Milestone scenario_B))"
    by (simp add: scenario_B_rows planned_fields)
  have ord: "order (resolved 0 ?req ?m) = 4" "order ?m = 2"
    by (simp_all add: resolved_fields edit_fields empty_body_def set_opt_def planned_fields)
  have occ: "slot_occupied 1 12 4 (Milestone scenario_B)"
    by (simp add: slot_occupied_def scenario_B_rows planned_fields)
  have ids: "map id_m (Milestone scenario_B) = [11, 12, 13, 14]"
    by (simp add: scenario_B_rows planned_fields)
  have new: "map (order_after_update 1 12 2 4 (Milestone scenario_B)) (Milestone scenario_B)
               = [1, 4, 2, 3]"
    by (simp add: scenario_B_rows order_after_update_def order_after_move_def
        occ [unfolded scenario_B_rows] planned_fields)
  from order_shift [OF eq dist]
  have "map id_m (Milestone st') = [11, 12, 13, 14]" "map order (Milestone st') = [1, 4, 2, 3]"
    by (simp_all only: ids new ord edit_fields)
  with dist show ?thesis by (simp only: st'_def simp_thms)
qed

text \<open>
  C4. If the identifiers of the table are distinct and the milestones of a timeline have
  pairwise distinct orders before a request, they have pairwise distinct orders after it,
  whether the request succeeds (with or without a renumbering) or fails.
\<close>

theorem order_uniqueness:
  assumes u: "update_milestone now req st = (res, st')"
    and d: "distinct (map id_m (Milestone st))"
    and o: "distinct (map order (filter (\<lambda>r. timelineId r = t) (Milestone st)))"
  shows "distinct (map order (filter (\<lambda>r. timelineId r = t) (Milestone st')))"
proof (cases res)
  case (Inl e)
  with u have "st' = st" by (simp add: update_milestone_Inl)
  with o show ?thesis by simp
next
  case (Inr p)
  obtain original updated where p: "p = (original, updated)" by (cases p)
  with Inr u have u': "update_milestone now req st = (Inr (original, updated), st')" by simp
  let ?f = "order_after_update (params_timelineId req) (params_milestoneId req)
              (order original) (order updated) (Milestone st)"
  let ?xs = "filter (\<lambda>r. timelineId r = t) (Milestone st)"
  have "map order (filter (\<lambda>r. timelineId r = t) (Milestone st')) = map ?f ?xs"
    using final_keys(2,3) [OF u' d] by (rule filter_map_keys)
  moreover from o have "distinct ?xs" by (simp add: distinct_map)
  moreover have "inj_on ?f (set ?xs)"
    using findOne_SomeD [OF update_milestone_Inr(1) [OF u']]
    by (intro order_after_update_inj [OF d o]) simp_all
  ultimately show ?thesis by (simp add: distinct_map)
qed

theorem order_uniqueness_witness:
  "distinct (map id_m (Milestone scenario_B))
   \<and> distinct (map order (filter (\<lambda>r. timelineId r = 1) (Milestone scenario_B)))
   \<and> distinct (map order (filter (\<lambda>r. timelineId r = 1)
        (Milestone (snd (update_milestone 0 (edit 1 14 (empty_body\<lparr>e_order := Some 1\<rparr>))
                           scenario_B)))))"
proof -
  let ?req = "edit 1 14 (empty_body\<lparr>e_order := Some 1\<rparr>)"
  have eq: "update_milestone 0 ?req scenario_B
              = (fst (update_milestone 0 ?req scenario_B), snd (update_milestone 0 ?req scenario_B))"
    by simp
  have dist: "distinct (map id_m (Milestone scenario_B))"
    by (simp add: scenario_B_rows planned_fields)
  have o: "distinct (map order (filter (\<lambda>r. timelineId r = 1) (Milestone scenario_B)))"
    by (simp add: scenario_B_rows planned_fields)
  from order_uniqueness [OF eq dist o] dist o show ?thesis by (intro conjI)
qed

section \<open>Synchronisation of the timeline\<close>

text \<open>
  C2. After a successful update that triggers the cascade, the end date of the timeline is the
  end date of a stored milestone of the timeline whose order is the highest of the timeline:
  the last milestone of the cascade. The timeline is left as it was when its end date
  already had this value, and otherwise receives this end date and the \<open>updatedBy\<close> of
  that milestone. When no milestone of the timeline has a greater order than the edited one,
  this milestone is the edited one.
\<close>

theorem timeline_endDate_sync:
  assumes u: "update_milestone now req st = (Inr (original, updated), st')"
    and c: "cascade_triggered original updated"
  shows "\<exists>l \<in> set (Milestone st').
           timelineId l = params_timelineId req
         \<and> (\<forall>m \<in> set (Milestone st'). timelineId m = params_timelineId req
                \<longrightarrow> order m \<le> order l)
         \<and> t_endDate (req_timeline st') = endDate l
         \<and> req_timeline st' =
             (if endDate l = t_endDate (req_timeline st) then req_timeline st
              else (req_timeline st)\<lparr>t_endDate := endDate l, t_updatedBy := updatedBy l\<rparr>)
         \<and> ((\<forall>m \<in> set (Milestone st'). timelineId m = params_timelineId req
                \<longrightarrow> order m \<le> order updated) \<longrightarrow> l = updated)"
proof -
  let ?rows2 = "reindex original updated (save updated (Milestone st))"
  let ?l = "snd (updateComingMilestones original updated ?rows2)"
  note m = updated_in_reindexed [OF u]
  from update_milestone_Inr(4) [OF u] c
  have st': "Milestone st' = fst (updateComingMilestones original updated ?rows2)"
    "req_timeline st' = sync_timeline ?l (req_timeline st)"
    by (simp_all add: cascade_and_sync_triggered)
  note cl = cascade_last [OF m(1), of original]
  have "?l \<in> set (Milestone st')" using cl(1) by (simp only: st')
  moreover have "timelineId ?l = params_timelineId req" using cl(2) m(2) by simp
  moreover have "\<forall>r \<in> set (Milestone st'). timelineId r = params_timelineId req
                \<longrightarrow> order r \<le> order ?l"
    using cl(3) by (simp only: st' m(2))
  moreover have "t_endDate (req_timeline st') = endDate ?l"
    by (simp only: st' sync_timeline_endDate(1))
  moreover have "req_timeline st' =
             (if endDate ?l = t_endDate (req_timeline st) then req_timeline st
              else (req_timeline st)\<lparr>t_endDate := endDate ?l, t_updatedBy := updatedBy ?l\<rparr>)"
    by (simp only: st' sync_timeline_endDate(2))
  moreover have "(\<forall>r \<in> set (Milestone st'). timelineId r = params_timelineId req
                \<longrightarrow> order r \<le> order updated) \<longrightarrow> ?l = updated"
    using cl(4) by (simp only: st' m(2))
  ultimately show ?thesis by blast
qed

theorem timeline_endDate_sync_witness:
  "cascade_triggered (planned 11 1 5 (utc_date 2024 1 1) (utc_date 2024 1 5))
     (resolved 0 (edit 1 11 (empty_body\<lparr>e_duration := Some 10\<rparr>))
        (planned 11 1 5 (utc_date 2024 1 1) (utc_date 2024 1 5)))
   \<and> fst (update_milestone 0 (edit 1 11 (empty_body\<lparr>e_duration := Some 10\<rparr>)) scenario_B)
       = Inr (planned 11 1 5 (utc_date 2024 1 1) (utc_date 2024 1 5),
              resolved 0 (edit 1 11 (empty_body\<lparr>e_duration := Some 10\<rparr>))
                (planned 11 1 5 (utc_date 2024 1 1) (utc_date 2024 1 5)))
   \<and> (\<exists>l \<in> set (Milestone (snd (update_milestone 0
                 (edit 1 11 (empty_body\<lparr>e_duration := Some 10\<rparr>)) scenario_B))).
         timelineId l = 1
         \<and> (\<forall>m \<in> set (Milestone (snd (update_milestone 0
                 (edit 1 11 (empty_body\<lparr>e_duration := Some 10\<rparr>)) scenario_B))).
               timelineId m = 1 \<longrightarrow> order m \<le> order l)
         \<and> t_endDate (req_timeline (snd (update_milestone 0
                 (edit 1 11 (empty_body\<lparr>e_duration := Some 10\<rparr>)) scenario_B))) = endDate l)"
proof -
  let ?req = "edit 1 11 (empty_body\<lparr>e_duration := Some 10\<rparr>)"
  let ?m = "planned 11 1 5 (utc_date 2024 1 1) (utc_date 2024 1 5)"
  have f: "findOne (params_timelineId ?req) (params_milestoneId ?req) (Milestone scenario_B)
             = Some ?m"
    by (simp add: findOne_def scenario_B_rows planned_fields edit_fields)
  have v: "\<not> completionDate_before_start (assign_audit ?req) ?m"
    by (simp add: completionDate_before_start_def assign_audit_fields edit_fields empty_body_def)
  define st' where "st' = snd (update_milestone 0 ?req scenario_B)"
  have eq: "update_milestone 0 ?req scenario_B = (Inr (?m, resolved 0 ?req ?m), st')"
    by (simp add: st'_def update_milestone_Some [OF f v])
  have c: "cascade_triggered ?m (resolved 0 ?req ?m)"
    by (simp add: cascade_triggered_def resolved_fields edit_fields empty_body_def set_opt_def
        planned_fields)
  from timeline_endDate_sync [OF eq c]
  have "\<exists>l \<in> set (Milestone st'). timelineId l = 1
         \<and> (\<forall>m \<in> set (Milestone st'). timelineId m = 1 \<longrightarrow> order m \<le> order l)
         \<and> t_endDate (req_timeline st') = endDate l"
    by (simp only: edit_fields) blast
  moreover have "fst (update_milestone 0 ?req scenario_B) = Inr (?m, resolved 0 ?req ?m)"
    by (simp only: eq fst_conv)
  ultimately show ?thesis using c by (simp only: st'_def simp_thms)
qed

section \<open>Updates that do not trigger the cascade\<close>

text \<open>
  C9, as stated, fails for an edit of the order alone. In scenario B, moving the milestone
  of order 4 to order 1 changes nothing of the edited milestone but its order (and the
  audit column) and triggers no cascade, yet the milestone that had order 1 is stored with
  order 2: a milestone that is downstream of the edited one after the request has a changed
  column. Moving the milestone of order 1 to order 4 likewise stores the milestone that had
  order 2, downstream of the edited one before the request, with order 1.
\<close>

theorem order_only_edit_counterexample:
  "fst (update_milestone 0 (edit 1 14 (empty_body\<lparr>e_order := Some 1\<rparr>)) scenario_B)
     = Inr (planned 14 4 1 (utc_date 2024 1 13) (utc_date 2024 1 13),
            (planned 14 1 1 (utc_date 2024 1 13) (utc_date 2024 1 13))\<lparr>updatedBy := 7\<rparr>)
   \<and> Milestone scenario_B ! 0 = planned 11 1 5 (utc_date 2024 1 1) (utc_date 2024 1 5)
   \<and> Milestone (snd (update_milestone 0 (edit 1 14 (empty_body\<lparr>e_order := Some 1\<rparr>))
                        scenario_B)) ! 0
     = planned 11 2 5 (utc_date 2024 1 1) (utc_date 2024 1 5)
   \<and> planned 11 2 5 (utc_date 2024 1 1) (utc_date 2024 1 5)
     \<noteq> planned 11 1 5 (utc_date 2024 1 1) (utc_date 2024 1 5)
   \<and> fst (update_milestone 0 (edit 1 11 (empty_body\<lparr>e_order := Some 4\<rparr>)) scenario_B)
     = Inr (planned 11 1 5 (utc_date 2024 1 1) (utc_date 2024 1 5),
            (planned 11 4 5 (utc_date 2024 1 1) (utc_date 2024 1 5))\<lparr>updatedBy := 7\<rparr>)
   \<and> Milestone scenario_B ! 1 = planned 12 2 3 (utc_date 2024 1 6) (utc_date 2024 1 8)
   \<and> Milestone (snd (update_milestone 0 (edit 1 11 (empty_body\<lparr>e_order := Some 4\<rparr>))
                        scenario_B)) ! 1
     = planned 12 1 3 (utc_date 2024 1 6) (utc_date 2024 1 8)
   \<and> planned 12 1 3 (utc_date 2024 1 6) (utc_date 2024 1 8)
     \<noteq> planned 12 2 3 (utc_date 2024 1 6) (utc_date 2024 1 8)"
proof -
  let ?req = "edit 1 14 (empty_body\<lparr>e_order := Some 1\<rparr>)"
  let ?m = "planned 14 4 1 (utc_date 2024 1 13) (utc_date 2024 1 13)"
  let ?u = "(planned 14 1 1 (utc_date 2024 1 13) (utc_date 2024 1 13))\<lparr>updatedBy := 7\<rparr>"
  let ?req' = "edit 1 11 (empty_body\<lparr>e_order := Some 4\<rparr>)"
  let ?m' = "planned 11 1 5 (utc_date 2024 1 1) (utc_date 2024 1 5)"
  let ?u' = "(planned 11 4 5 (utc_date 2024 1 1) (utc_date 2024 1 5))\<lparr>updatedBy := 7\<rparr>"
  have f: "findOne (params_timelineId ?req) (params_milestoneId ?req) (Milestone scenario_B)
             = Some ?m"
    by (simp add: findOne_def scenario_B_rows planned_fields edit_fields)
  have v: "\<not> completionDate_before_start (assign_audit ?req) ?m"
    by (simp add: completionDate_before_start_def assign_audit_fields edit_fields empty_body_def)
  have nc: "\<not> cascade_triggered ?m ?u"
    by (simp add: cascade_triggered_def planned_def)
  have rows2: "reindex ?m ?u (save ?u (Milestone scenario_B))
      = [planned 11 2 5 (utc_date 2024 1 1) (utc_date 2024 1 5),
         planned 12 3 3 (utc_date 2024 1 6) (utc_date 2024 1 8),
         planned 13 4 4 (utc_date 2024 1 9) (utc_date 2024 1 12), ?u]"
    by (simp add: reindex_def count_at_order_def shift_orders_def save_def scenario_B_rows
        planned_def)
  have eq: "update_milestone 0 ?req scenario_B
      = (Inr (?m, ?u), scenario_B\<lparr>Milestone := reindex ?m ?u (save ?u (Milestone scenario_B))\<rparr>)"
    using update_milestone_Some [OF f v, of 0]
    by (simp only: resolved_order_only cascade_and_sync_idle [OF nc])
  have ne: "planned 11 2 5 (utc_date 2024 1 1) (utc_date 2024 1 5)
     \<noteq> planned 11 1 5 (utc_date 2024 1 1) (utc_date 2024 1 5)"
    by (simp add: planned_def)
  have rows': "Milestone (snd (update_milestone 0 ?req scenario_B)) ! 0
      = planned 11 2 5 (utc_date 2024 1 1) (utc_date 2024 1 5)"
    by (simp add: eq rows2)
  have row: "Milestone scenario_B ! 0 = planned 11 1 5 (utc_date 2024 1 1) (utc_date 2024 1 5)"
    by (simp add: scenario_B_rows)
  have res: "fst (update_milestone 0 ?req scenario_B) = Inr (?m, ?u)"
    by (simp only: eq fst_conv)
  have f': "findOne (params_timelineId ?req') (params_milestoneId ?req') (Milestone scenario_B)
             = Some ?m'"
    by (simp add: findOne_def scenario_B_rows planned_fields edit_fields)
  have v': "\<not> completionDate_before_start (assign_audit ?req') ?m'"
    by (simp add: completionDate_before_start_def assign_audit_fields edit_fields empty_body_def)
  have nc': "\<not> cascade_triggered ?m' ?u'"
    by (simp add: cascade_triggered_def planned_def)
  have rows2': "reindex ?m' ?u' (save ?u' (Milestone scenario_B))
      = [?u', planned 12 1 3 (utc_date 2024 1 6) (utc_date 2024 1 8),
         planned 13 2 4 (utc_date 2024 1 9) (utc_date 2024 1 12),
         planned 14 3 1 (utc_date 2024 1 13) (utc_date 2024 1 13)]"
    by (simp add: reindex_def count_at_order_def shift_orders_def save_def scenario_B_rows
        planned_def)
  have eq': "update_milestone 0 ?req' scenario_B
      = (Inr (?m', ?u'),
         scenario_B\<lparr>Milestone := reindex ?m' ?u' (save ?u' (Milestone scenario_B))\<rparr>)"
    using update_milestone_Some [OF f' v', of 0]
    by (simp only: resolved_order_up cascade_and_sync_idle [OF nc'])
  have ne': "planned 12 1 3 (utc_date 2024 1 6) (utc_date 2024 1 8)
     \<noteq> planned 12 2 3 (utc_date 2024 1 6) (utc_date 2024 1 8)"
    by (simp add: planned_def)
  have rows'': "Milestone (snd (update_milestone 0 ?req' scenario_B)) ! 1
      = planned 12 1 3 (utc_date 2024 1 6) (utc_date 2024 1 8)"
    by (simp add: eq' rows2')
  have row': "Milestone scenario_B ! 1 = planned 12 2 3 (utc_date 2024 1 6) (utc_date 2024 1 8)"
    by (simp add: scenario_B_rows)
  have res': "fst (update_milestone 0 ?req' scenario_B) = Inr (?m', ?u')"
    by (simp only: eq' fst_conv)
  from res row rows' ne res' row' rows'' ne' show ?thesis by (simp only: simp_thms)
qed

text \<open>
  C9, amended. When the completion date and the duration of the edited milestone are the
  stored ones after the merge, the cascade does not run: the timeline is not touched, the
  table is the one that the save of the edited milestone and the renumbering produce, and
  every other row keeps all its columns except possibly \<open>order\<close>; when the order of the
  edited milestone is the stored one as well, every other row is unchanged.
\<close>

theorem no_cascade_frame:
  assumes u: "update_milestone now req st = (Inr (original, updated), st')"
    and c: "completionDate updated = completionDate original"
    and d: "duration updated = duration original"
  shows "req_timeline st' = req_timeline st
    \<and> Milestone st' = reindex original updated (save updated (Milestone st))
    \<and> list_all2 (\<lambda>r r'. id_m r \<noteq> params_milestoneId req \<longrightarrow> r' = r\<lparr>order := order r'\<rparr>)
          (Milestone st) (Milestone st')
    \<and> (order updated = order original \<longrightarrow>
          list_all2 (\<lambda>r r'. id_m r \<noteq> params_milestoneId req \<longrightarrow> r' = r)
            (Milestone st) (Milestone st'))"
proof -
  let ?rows = "Milestone st"
  let ?rows1 = "save updated ?rows"
  let ?rows2 = "reindex original updated ?rows1"
  note s = update_milestone_Inr [OF u]
  from c d have "\<not> cascade_triggered original updated" by (simp add: cascade_triggered_def)
  with s(4) have st': "st' = st\<lparr>Milestone := ?rows2\<rparr>" by (simp add: cascade_and_sync_idle)
  from s(1,3) have k: "id_m updated = params_milestoneId req"
    by (simp add: resolved_fields findOne_SomeD)
  have len: "length ?rows2 = length ?rows"
    by (simp add: reindex_length save_length)
  have fr: "?rows2 ! i = (?rows ! i)\<lparr>order := order (?rows2 ! i)\<rparr>"
    if "i < length ?rows" "id_m (?rows ! i) \<noteq> params_milestoneId req" for i
  proof -
    from that k have "?rows1 ! i = ?rows ! i" by (simp add: save_nth_other)
    moreover from that(1) have "order_frame (?rows1 ! i) (?rows2 ! i)"
      using reindex_frame [of ?rows1 original updated]
      by (simp add: list_all2_conv_all_nth save_length)
    ultimately show ?thesis by (simp add: order_frame_def)
  qed
  have same: "?rows2 ! i = ?rows ! i"
    if "order updated = order original" "i < length ?rows"
      "id_m (?rows ! i) \<noteq> params_milestoneId req" for i
    using that k by (simp add: reindex_same_order save_nth_other)
  from st' len fr same show ?thesis
    by (simp add: list_all2_conv_all_nth)
qed

theorem no_cascade_frame_witness:
  "fst (update_milestone 0 (edit 1 12 (empty_body\<lparr>e_name := Some ''Design''\<rparr>)) scenario_B)
     = Inr (planned 12 2 3 (utc_date 2024 1 6) (utc_date 2024 1 8),
            (planned 12 2 3 (utc_date 2024 1 6) (utc_date 2024 1 8))
              \<lparr>name := ''Design'', updatedBy := 7\<rparr>)
   \<and> req_timeline (snd (update_milestone 0 (edit 1 12 (empty_body\<lparr>e_name := Some ''Design''\<rparr>))
                          scenario_B))
     = req_timeline scenario_B
   \<and> list_all2 (\<lambda>r r'. id_m r \<noteq> 12 \<longrightarrow> r' = r) (Milestone scenario_B)
       (Milestone (snd (update_milestone 0 (edit 1 12 (empty_body\<lparr>e_name := Some ''Design''\<rparr>))
                          scenario_B)))"
proof -
  let ?req = "edit 1 12 (empty_body\<lparr>e_name := Some ''Design''\<rparr>)"
  let ?m = "planned 12 2 3 (utc_date 2024 1 6) (utc_date 2024 1 8)"
  let ?u = "?m\<lparr>name := ''Design'', updatedBy := 7\<rparr>"
  have f: "findOne (params_timelineId ?req) (params_milestoneId ?req) (Milestone scenario_B)
             = Some ?m"
    by (simp add: findOne_def scenario_B_rows planned_fields edit_fields)
  have v: "\<not> completionDate_before_start (assign_audit ?req) ?m"
    by (simp add: completionDate_before_start_def assign_audit_fields edit_fields empty_body_def)
  define st' where "st' = snd (update_milestone 0 ?req scenario_B)"
  have eq: "update_milestone 0 ?req scenario_B = (Inr (?m, ?u), st')"
    using update_milestone_Some [OF f v, of 0] by (simp add: st'_def resolved_name_only)
  have c: "completionDate ?u = completionDate ?m" by simp
  have d: "duration ?u = duration ?m" by simp
  have o: "order ?u = order ?m" by simp
  note n = no_cascade_frame [OF eq c d, unfolded edit_fields]
  from n have "req_timeline st' = req_timeline scenario_B" by (rule conjunct1)
  moreover from n o
  have "list_all2 (\<lambda>r r'. id_m r \<noteq> 12 \<longrightarrow> r' = r) (Milestone scenario_B) (Milestone st')"
    by blast
  moreover have "fst (update_milestone 0 ?req scenario_B) = Inr (?m, ?u)"
    by (simp only: eq fst_conv)
  ultimately show ?thesis by (simp only: st'_def simp_thms)
qed

section \<open>Clearing the completion date\<close>

text \<open>
  C10. Let the stored milestone have a completion date and the request supply \<open>null\<close> for
  it, without a transition of the status to COMPLETED. Then the request passes the
  validation and succeeds; the stored completion date is cleared; the status is the
  requested one, or the stored one when none is requested, so a milestone that was not
  COMPLETED does not become COMPLETED; the cascade is triggered, and in the resulting table
  (identifiers being distinct) the first milestone that is not hidden among those of the
  timeline with a greater order is ACTIVE.
\<close>

theorem clearing_completionDate:
  assumes f: "findOne (params_timelineId req) (params_milestoneId req) (Milestone st) = Some m"
    and d: "distinct (map id_m (Milestone st))"
    and c: "completionDate m = Some c0"
    and n: "e_completionDate (body_param req) = Null"
    and s: "\<not> (statusChanged (body_param req) m
                \<and> e_status (body_param req) = Some MILESTONE_STATUS_COMPLETED)"
  shows "\<exists>st'. update_milestone now req st = (Inr (m, resolved now req m), st')
    \<and> completionDate (resolved now req m) = None
    \<and> status (resolved now req m)
        = (case e_status (body_param req) of Some r \<Rightarrow> r | None \<Rightarrow> status m)
    \<and> (status m \<noteq> MILESTONE_STATUS_COMPLETED
          \<longrightarrow> status (resolved now req m) \<noteq> MILESTONE_STATUS_COMPLETED)
    \<and> cascade_triggered m (resolved now req m)
    \<and> st' = \<lparr>Milestone = fst (updateComingMilestones m (resolved now req m)
                                (reindex m (resolved now req m)
                                   (save (resolved now req m) (Milestone st)))),
             req_timeline = sync_timeline
                              (snd (updateComingMilestones m (resolved now req m)
                                      (reindex m (resolved now req m)
                                         (save (resolved now req m) (Milestone st)))))
                              (req_timeline st)\<rparr>
    \<and> (\<forall>x rest. dropWhile hidden (comingMilestones (resolved now req m) (Milestone st'))
                    = x # rest \<longrightarrow> status x = MILESTONE_STATUS_ACTIVE)"
proof -
  let ?u = "resolved now req m"
  let ?rows2 = "reindex m ?u (save ?u (Milestone st))"
  let ?st' = "cascade_and_sync m ?u (st\<lparr>Milestone := ?rows2\<rparr>)"
  from n have v: "\<not> completionDate_before_start (assign_audit req) m"
    by (simp add: completionDate_before_start_def assign_audit_fields)
  have eq: "update_milestone now req st = (Inr (m, ?u), ?st')"
    using f v by (rule update_milestone_Some)
  from n s have cd: "completionDate ?u = None"
    by (simp add: resolved_fields merge_fields_completionDate flags_assign_audit
        assign_audit_fields set_field_def)
  from n have stt: "status ?u = (case e_status (body_param req) of Some r \<Rightarrow> r | None \<Rightarrow> status m)"
    by (simp add: resolved_fields merge_fields_status flags_assign_audit assign_audit_fields
        completionDateChanged_def set_opt_def)
  from s have nf: "status m \<noteq> MILESTONE_STATUS_COMPLETED
          \<longrightarrow> status ?u \<noteq> MILESTONE_STATUS_COMPLETED"
    using statuses_distinct(3)
    by (auto simp: stt statusChanged_def split: option.splits)
  from c cd have tr: "cascade_triggered m ?u" by (simp add: cascade_triggered_def)
  then have st': "?st' = \<lparr>Milestone = fst (updateComingMilestones m ?u ?rows2),
             req_timeline = sync_timeline (snd (updateComingMilestones m ?u ?rows2))
                              (req_timeline st)\<rparr>"
    by (simp add: cascade_and_sync_triggered)
  have d2: "distinct (map id_m ?rows2)" using d by (simp add: reindex_map save_keys)
  have "comingMilestones ?u (Milestone ?st') = savedMilestones m ?u ?rows2"
    using coming_after_cascade [OF d2] by (simp add: st')
  also have "\<dots> = cascade_loop True (updatedBy ?u) (next_startDate ?u) False
                     (comingMilestones ?u ?rows2)"
    using c cd by (simp add: savedMilestones_def)
  finally have act: "\<forall>x rest. dropWhile hidden (comingMilestones ?u (Milestone ?st')) = x # rest
       \<longrightarrow> status x = MILESTONE_STATUS_ACTIVE"
    by (auto dest: cascade_loop_first_active)
  from eq cd stt nf tr st' act show ?thesis by (intro exI [of _ ?st']) (simp only: simp_thms)
qed

theorem clearing_completionDate_witness:
  "findOne 1 11 (Milestone store_E) = Some completed_E
   \<and> distinct (map id_m (Milestone store_E))
   \<and> completionDate completed_E = Some (utc_date 2024 1 3)
   \<and> (\<exists>st'. update_milestone 0 (edit 1 11 (empty_body\<lparr>e_completionDate := Null\<rparr>)) store_E
                = (Inr (completed_E,
                        resolved 0 (edit 1 11 (empty_body\<lparr>e_completionDate := Null\<rparr>))
                          completed_E), st')
         \<and> completionDate (resolved 0 (edit 1 11 (empty_body\<lparr>e_completionDate := Null\<rparr>))
                             completed_E) = None
         \<and> status (resolved 0 (edit 1 11 (empty_body\<lparr>e_completionDate := Null\<rparr>))
                     completed_E) = status completed_E
         \<and> cascade_triggered completed_E
              (resolved 0 (edit 1 11 (empty_body\<lparr>e_completionDate := Null\<rparr>)) completed_E)
         \<and> map id_m (comingMilestones
                (resolved 0 (edit 1 11 (empty_body\<lparr>e_completionDate := Null\<rparr>)) completed_E)
                (Milestone st')) = [12, 13]
         \<and> map hidden (comingMilestones
                (resolved 0 (edit 1 11 (empty_body\<lparr>e_completionDate := Null\<rparr>)) completed_E)
                (Milestone st')) = [True, False]
         \<and> (\<forall>x rest. dropWhile hidden
                 (comingMilestones
                    (resolved 0 (edit 1 11 (empty_body\<lparr>e_completionDate := Null\<rparr>))
                       completed_E) (Milestone st')) = x # rest
               \<longrightarrow> status x = MILESTONE_STATUS_ACTIVE))"
proof -
  let ?req = "edit 1 11 (empty_body\<lparr>e_completionDate := Null\<rparr>)"
  let ?m = "completed_E"
  let ?u = "resolved 0 ?req ?m"
  let ?rows = "Milestone store_E"
  have f: "findOne (params_timelineId ?req) (params_milestoneId ?req) ?rows = Some ?m"
    by (simp add: findOne_def store_E_def scenario_E_def completed_E_fields edit_fields)
  have d: "distinct (map id_m ?rows)"
    by (simp add: store_E_def scenario_E_def completed_E_fields planned_def)
  have c: "completionDate ?m = Some (utc_date 2024 1 3)"
    by (simp add: completed_E_fields)
  have n: "e_completionDate (body_param ?req) = Null"
    by (simp add: edit_fields empty_body_def)
  have e: "e_status (body_param ?req) = None"
    by (simp add: edit_fields empty_body_def)
  then have s: "\<not> (statusChanged (body_param ?req) ?m
                \<and> e_status (body_param ?req) = Some MILESTONE_STATUS_COMPLETED)"
    by simp
  from clearing_completionDate [OF f d c n s, of 0]
  obtain st' where r: "update_milestone 0 ?req store_E = (Inr (?m, ?u), st')"
    "completionDate ?u = None"
    "status ?u = (case e_status (body_param ?req) of Some r \<Rightarrow> r | None \<Rightarrow> status ?m)"
    "cascade_triggered ?m ?u"
    "Milestone st' = fst (updateComingMilestones ?m ?u (reindex ?m ?u (save ?u ?rows)))"
    "\<forall>x rest. dropWhile hidden (comingMilestones ?u (Milestone st'))
                    = x # rest \<longrightarrow> status x = MILESTONE_STATUS_ACTIVE"
    by auto
  from r(3) have st: "status ?u = status ?m" by (simp only: e option.case)
  have ku: "id_m ?u = 11" "timelineId ?u = 1" "order ?u = 1"
    by (simp_all add: resolved_fields edit_fields empty_body_def set_opt_def completed_E_fields)
  have rows2: "reindex ?m ?u (save ?u ?rows) = save ?u ?rows"
    by (simp add: reindex_same_order ku completed_E_fields)
  have d2: "distinct (map id_m (save ?u ?rows))" using d by (simp add: save_keys)
  have cm: "comingMilestones ?u (Milestone st') = savedMilestones ?m ?u (save ?u ?rows)"
    using coming_after_cascade [OF d2, of ?u ?m] by (simp only: r(5) rows2)
  have co: "comingMilestones ?u (save ?u ?rows)
      = [(planned 12 2 3 (utc_date 2024 1 6) (utc_date 2024 1 8))\<lparr>hidden := True\<rparr>,
         planned 13 3 4 (utc_date 2024 1 9) (utc_date 2024 1 12)]"
    by (simp add: comingMilestones_def save_def store_E_def scenario_E_def ku
        completed_E_fields planned_def)
  have ids: "map id_m (comingMilestones ?u (Milestone st')) = [12, 13]"
    by (simp only: cm savedMilestones_map co) (simp add: planned_def)
  have hid: "map hidden (comingMilestones ?u (Milestone st')) = [True, False]"
    by (simp only: cm savedMilestones_hidden co) (simp add: planned_def)
  have "\<exists>st'. update_milestone 0 ?req store_E = (Inr (?m, ?u), st')
         \<and> completionDate ?u = None
         \<and> status ?u = status ?m
         \<and> cascade_triggered ?m ?u
         \<and> map id_m (comingMilestones ?u (Milestone st')) = [12, 13]
         \<and> map hidden (comingMilestones ?u (Milestone st')) = [True, False]
         \<and> (\<forall>x rest. dropWhile hidden (comingMilestones ?u (Milestone st'))
                    = x # rest \<longrightarrow> status x = MILESTONE_STATUS_ACTIVE)"
    by (intro exI [of _ st'] conjI r(1) r(2) st r(4) ids hid r(6))
  moreover from f have "findOne 1 11 ?rows = Some ?m"
    by (simp only: edit_fields)
  ultimately show ?thesis using d c by (simp only: simp_thms)
qed

section \<open>Scenario A: a longer first milestone\<close>

text \<open>
  C1. In scenario A, editing the duration of milestone 1 to 10 succeeds and leaves it ending
  on 2024-01-10, milestone 2 running from 2024-01-11 to 2024-01-13 and milestone 3 from
  2024-01-14 to 2024-01-17; the end date of the timeline becomes 2024-01-17. This holds
  whatever the clock and whatever dates milestones 2 and 3 and the timeline had before.
\<close>

theorem scenario_A_cascade:
  "fst (update_milestone now (edit 1 11 (empty_body\<lparr>e_duration := Some 10\<rparr>))
          (scenario_A e1 s2 e2 s3 e3 te))
     = Inr (planned 11 1 5 (utc_date 2024 1 1) e1,
            (planned 11 1 10 (utc_date 2024 1 1) (utc_date 2024 1 10))\<lparr>updatedBy := 7\<rparr>)
   \<and> map (\<lambda>m. (order m, startDate m, endDate m))
        (Milestone (snd (update_milestone now (edit 1 11 (empty_body\<lparr>e_duration := Some 10\<rparr>))
                           (scenario_A e1 s2 e2 s3 e3 te))))
     = [(1, utc_date 2024 1 1, utc_date 2024 1 10),
        (2, utc_date 2024 1 11, utc_date 2024 1 13),
        (3, utc_date 2024 1 14, utc_date 2024 1 17)]
   \<and> t_endDate (req_timeline
        (snd (update_milestone now (edit 1 11 (empty_body\<lparr>e_duration := Some 10\<rparr>))
                (scenario_A e1 s2 e2 s3 e3 te))))
     = utc_date 2024 1 17"
proof -
  let ?u = "(planned 11 1 10 (utc_date 2024 1 1) (utc_date 2024 1 10))\<lparr>updatedBy := 7\<rparr>"
  have d0: "next_startDate ?u = utc_date 2024 1 11"
    by (simp add: next_startDate_def planned_def utc_dates_2024 add_days_def)
  have d1: "add_days (utc_date 2024 1 11) 2 = utc_date 2024 1 13"
    "add_days (utc_date 2024 1 13) 1 = utc_date 2024 1 14"
    "add_days (utc_date 2024 1 14) 3 = utc_date 2024 1 17"
    by (simp_all add: utc_dates_2024 add_days_def)
  show ?thesis
    by (simp add: scenario_A_result sync_timeline_endDate(1) cascade_step_dates
        cascade_step_kept next_startDate_def [of "fst (cascade_step c u d f m)" for c u d f m]
        d0 d1 planned_fields)
qed

section \<open>End date and start date of the edited milestone\<close>

text \<open>
  C8. The handler derives the end date from the start date when the duration changes (line
  157) and the cascade does so for every milestone it saves (line 49), but the transition to
  ACTIVE (line 168) stores today as start date and leaves the end date as it was. In
  scenario B every milestone ends \<open>duration - 1\<close> days after its start; activating the
  first one at noon of 2024-02-01 succeeds and stores, for the edited milestone, the start
  date 2024-02-01 with the previous end date 2024-01-05, whereas start date plus four days
  is 2024-02-05.
\<close>

theorem activation_leaves_endDate:
  "list_all (\<lambda>m. endDate m = add_days (startDate m) (duration m - 1)) (Milestone scenario_B)
   \<and> fst (update_milestone noon_2024_02_01
            (edit 1 11 (empty_body\<lparr>e_status := Some MILESTONE_STATUS_ACTIVE\<rparr>)) scenario_B)
     = Inr (planned 11 1 5 (utc_date 2024 1 1) (utc_date 2024 1 5),
            (planned 11 1 5 (utc_date 2024 2 1) (utc_date 2024 1 5))
              \<lparr>status := MILESTONE_STATUS_ACTIVE, updatedBy := 7\<rparr>)
   \<and> Milestone (snd (update_milestone noon_2024_02_01
            (edit 1 11 (empty_body\<lparr>e_status := Some MILESTONE_STATUS_ACTIVE\<rparr>)) scenario_B)) ! 0
     = (planned 11 1 5 (utc_date 2024 2 1) (utc_date 2024 1 5))
         \<lparr>status := MILESTONE_STATUS_ACTIVE, updatedBy := 7\<rparr>
   \<and> add_days (utc_date 2024 2 1) (5 - 1) = utc_date 2024 2 5
   \<and> utc_date 2024 1 5 \<noteq> utc_date 2024 2 5"
proof -
  let ?req = "edit 1 11 (empty_body\<lparr>e_status := Some MILESTONE_STATUS_ACTIVE\<rparr>)"
  let ?m = "planned 11 1 5 (utc_date 2024 1 1) (utc_date 2024 1 5)"
  let ?u = "(planned 11 1 5 (utc_date 2024 2 1) (utc_date 2024 1 5))
              \<lparr>status := MILESTONE_STATUS_ACTIVE, updatedBy := 7\<rparr>"
  have inv: "list_all (\<lambda>m. endDate m = add_days (startDate m) (duration m - 1))
               (Milestone scenario_B)"
    by (simp add: scenario_B_rows planned_fields add_days_def utc_date_def Let_def)
  have f: "findOne (params_timelineId ?req) (params_milestoneId ?req) (Milestone scenario_B)
             = Some ?m"
    by (simp add: findOne_def scenario_B_rows planned_fields edit_fields)
  have v: "\<not> completionDate_before_start (assign_audit ?req) ?m"
    by (simp add: completionDate_before_start_def assign_audit_fields edit_fields empty_body_def)
  have nc: "\<not> cascade_triggered ?m ?u"
    by (simp add: cascade_triggered_def planned_def)
  have rows2: "reindex ?m ?u (save ?u (Milestone scenario_B)) ! 0 = ?u"
    by (simp add: reindex_same_order save_def scenario_B_rows planned_def)
  have eq: "update_milestone noon_2024_02_01 ?req scenario_B
      = (Inr (?m, ?u), scenario_B\<lparr>Milestone := reindex ?m ?u (save ?u (Milestone scenario_B))\<rparr>)"
    using update_milestone_Some [OF f v, of noon_2024_02_01]
    by (simp only: resolved_activate cascade_and_sync_idle [OF nc])
  have rows': "Milestone (snd (update_milestone noon_2024_02_01 ?req scenario_B)) ! 0 = ?u"
    by (simp add: eq rows2)
  have "fst (update_milestone noon_2024_02_01 ?req scenario_B) = Inr (?m, ?u)"
    by (simp only: eq fst_conv)
  moreover have "add_days (utc_date 2024 2 1) (5 - 1) = utc_date 2024 2 5"
    "utc_date 2024 1 5 \<noteq> utc_date 2024 2 5"
    by (simp_all add: add_days_def utc_date_def Let_def day_ms_def)
  ultimately show ?thesis using inv rows' by (simp only: simp_thms)
qed

end
